theory Spec2Isabelle
  imports Complex_Main
begin

section \<open>Exceptions, outcomes and the outside world\<close>

text \<open>
  The exception classes the program raises, catches or lets through:
  those of \<^verbatim>\<open>errors.py\<close>, the Python builtins, and the ones of the
  \<^verbatim>\<open>web3\<close>, \<^verbatim>\<open>requests\<close> and \<^verbatim>\<open>pydantic\<close> libraries that the
  source names in its handlers.
\<close>

datatype exn =
    Web3ConnectionException
  | InvalidAddressException
  | InvalidPrivateKeyException
  | TransactionException
  | SwapException
  | ABIException
  | CoinException
  | ValueError
  | TypeError
  | KeyError
  | ZeroDivisionError
  | KeyboardInterrupt
  | TimeExhausted
  | ContractLogicError
  | ABIFunctionNotFound
  | RequestException
  | HTTPError
  | ValidationError

text \<open>\<^verbatim>\<open>models.py\<close>: the enum \<^verbatim>\<open>TransactionStatus\<close> and the named tuple
  \<^verbatim>\<open>TransactionResult\<close>.\<close>

datatype TransactionStatus = SUCCESS | FAILURE | NOT_VERIFIED

type_synonym Address = string

record TransactionResult =
  status :: TransactionStatus
  transactionHash :: string

text \<open>
  Python values as they occur in the keyword arguments of a transaction
  (\<^verbatim>\<open>Dict[str, Any]\<close>), and a dict as the list of its items in insertion order.
\<close>

datatype pyval = PInt int | PStr string | PNone

type_synonym pydict = "(string \<times> pyval) list"

text \<open>
  Everything the program does to the outside is an event of a trace, in program
  order: a line printed, a sleep, a call of a method of a collaborator (the chain
  client, a contract, or an object handed to the program). The outside answers a
  call as a function of the whole trace up to and including that call, so any
  deterministic collaborator is covered. \<open>PrintBlockNumber n\<close> is the line
  \<^verbatim>\<open>Block number: n\<close> and \<open>PrintRequestError e\<close> the line
  \<^verbatim>\<open>Request Error: e\<close>, \<open>PrintVerifyError e\<close> the line of \<^verbatim>\<open>verify_transaction\<close>.
  \<open>NewWeb3 url\<close> is \<^verbatim>\<open>Web3(Web3.HTTPProvider(url))\<close>, \<open>BuildExchange i j dy min_dy tx\<close>
  is \<^verbatim>\<open>exchange(i, j, dy, min_dy).build_transaction(tx)\<close>.
\<close>

datatype event =
    is_Print: Print string
  | is_Sleep: Sleep int
  | is_SendETH: SendETH real Address
  | is_Approve: Approve Address Address int
  | is_Swap: Swap Address Address Address int
  | is_GetBlockLatest: GetBlockLatest
  | is_PrintBlockNumber: PrintBlockNumber int
  | is_PrintRequestError: PrintRequestError exn
  | is_NewWeb3: NewWeb3 string
  | is_IsConnected: IsConnected
  | is_MaxPriorityFee: MaxPriorityFee
  | is_GetTransactionCount: GetTransactionCount Address
  | is_ChainId: ChainId
  | is_SignTransaction: SignTransaction pydict
  | is_SendRawTransaction: SendRawTransaction string
  | is_WaitForReceipt: WaitForReceipt string int
  | is_PrintVerifyError: PrintVerifyError exn
  | is_CallNCoins: CallNCoins
  | is_CallCoins: CallCoins int
  | is_CallGetDy: CallGetDy int int int
  | is_BuildExchange: BuildExchange int int int int pydict

type_synonym trace = "event list"

type_synonym 'a io = "trace \<Rightarrow> (exn + 'a) \<times> trace"

definition ext :: "event \<Rightarrow> (trace \<Rightarrow> exn + 'a) \<Rightarrow> 'a io" where
  "ext ev oracle t = (oracle (t @ [ev]), t @ [ev])"

definition print :: "string \<Rightarrow> trace \<Rightarrow> trace" where
  "print s t = t @ [Print s]"

section \<open>The bounded retry loop of \<^verbatim>\<open>core.py\<close>\<close>

text \<open>
  The loop appears three times in \<^verbatim>\<open>core.py\<close> with the same shape (sending ETH,
  approving, swapping):
  \<^verbatim>\<open>
    while result.status != TransactionStatus.SUCCESS and retried != self.retries:
        print("... Unsucessful"); print("Retrying...")
        retried += 1
        result = <operation>
  \<close>
  \<^verbatim>\<open>retries\<close> is a Python int; the test is \<^verbatim>\<open>!=\<close>, so the loop is defined as a
  partial function: not returning is the value \<open>None\<close>. An exception of the
  operation leaves the loop.
\<close>

partial_function (option) retry_while ::
  "string \<Rightarrow> TransactionResult io \<Rightarrow> int \<Rightarrow> TransactionResult \<Rightarrow> int \<Rightarrow> trace
     \<Rightarrow> ((exn + TransactionResult) \<times> trace) option"
where
  "retry_while msg operation retries result retried t =
     (if status result \<noteq> SUCCESS \<and> retried \<noteq> retries then
        (case operation (print ''Retrying...'' (print msg t)) of
           (Inl e, t') \<Rightarrow> Some (Inl e, t')
         | (Inr result', t') \<Rightarrow> retry_while msg operation retries result' (retried + 1) t')
      else Some (Inr result, t))"

text \<open>
  The first call, \<^verbatim>\<open>retried = 0\<close>, and the loop. The first call and the retried
  call are separate parameters because the swap loop of \<^verbatim>\<open>Arbitrage._swap\<close> names
  two different objects for them.
\<close>

definition call_with_retries ::
  "string \<Rightarrow> TransactionResult io \<Rightarrow> TransactionResult io \<Rightarrow> int \<Rightarrow> trace
     \<Rightarrow> ((exn + TransactionResult) \<times> trace) option"
where
  "call_with_retries msg first_call retry_call retries t =
     (case first_call t of
        (Inl e, t') \<Rightarrow> Some (Inl e, t')
      | (Inr result, t') \<Rightarrow> retry_while msg retry_call retries result 0 t')"

section \<open>The objects \<^verbatim>\<open>core.py\<close> works with\<close>

text \<open>
  \<^verbatim>\<open>constructs.py\<close>, \<^verbatim>\<open>coin.py\<close>: a contract object has an address
  (\<^verbatim>\<open>get_address\<close>); a coin adds \<^verbatim>\<open>approve(address, amount)\<close> and a swapper the
  abstract \<^verbatim>\<open>swap(sell, buy, amount)\<close>. Methods are fields of function type, as the
  calls of \<^verbatim>\<open>core.py\<close> dispatch on the object they are given.
\<close>

record BaseContract =
  address :: Address

record ERC20Coin = BaseContract +
  approve :: "Address \<Rightarrow> int \<Rightarrow> TransactionResult io"

record BaseSwapper = BaseContract +
  swap :: "Address \<Rightarrow> Address \<Rightarrow> int \<Rightarrow> TransactionResult io"

text \<open>
  A coin, and a swapper, whose method calls are events of the trace (tagged with the
  object's address) and are answered by an oracle: the objects of a run as
  \<^verbatim>\<open>core.py\<close> sees them.
\<close>

definition recorded_coin :: "Address \<Rightarrow> (trace \<Rightarrow> exn + TransactionResult) \<Rightarrow> ERC20Coin" where
  "recorded_coin a oracle =
     \<lparr>address = a, approve = (\<lambda>spender amt. ext (Approve a spender amt) oracle)\<rparr>"

definition recorded_swapper :: "Address \<Rightarrow> (trace \<Rightarrow> exn + TransactionResult) \<Rightarrow> BaseSwapper" where
  "recorded_swapper a oracle =
     \<lparr>address = a, swap = (\<lambda>sell buy amt. ext (Swap a sell buy amt) oracle)\<rparr>"

section \<open>\<^verbatim>\<open>Arbitrage._swap\<close>: one leg\<close>

record Arbitrage =
  amount :: int
  retries :: int
  swapper_1 :: BaseSwapper
  swapper_2 :: BaseSwapper
  coin1_1 :: ERC20Coin
  coin2_2 :: ERC20Coin

text \<open>
  \<^verbatim>\<open>_swap(self, sell_coin, swapper, buy_coin_address)\<close>: approve with retries, report,
  return when the approval did not succeed; swap with retries, report. The retried
  swap is written \<^verbatim>\<open>self._swapper_1.swap(...)\<close> in the source, the first one
  \<^verbatim>\<open>swapper.swap(...)\<close>.
\<close>

definition Arbitrage_swap ::
  "Arbitrage \<Rightarrow> ERC20Coin \<Rightarrow> BaseSwapper \<Rightarrow> Address \<Rightarrow> trace \<Rightarrow> ((exn + unit) \<times> trace) option"
where
  "Arbitrage_swap self sell_coin swapper buy_coin_address t =
     (case call_with_retries ''Approval Unsucessful''
             (approve sell_coin (address swapper) (Arbitrage.amount self))
             (approve sell_coin (address swapper) (Arbitrage.amount self))
             (Arbitrage.retries self) t of
        None \<Rightarrow> None
      | Some (Inl e, t1) \<Rightarrow> Some (Inl e, t1)
      | Some (Inr result, t1) \<Rightarrow>
          if status result = SUCCESS then
            (case call_with_retries ''Swap Unsucessful''
                    (swap swapper (address sell_coin) buy_coin_address (Arbitrage.amount self))
                    (swap (swapper_1 self) (address sell_coin) buy_coin_address
                       (Arbitrage.amount self))
                    (Arbitrage.retries self) (print ''Approval Succeeded'' t1) of
               None \<Rightarrow> None
             | Some (Inl e, t2) \<Rightarrow> Some (Inl e, t2)
             | Some (Inr result2, t2) \<Rightarrow>
                 if status result2 = SUCCESS then Some (Inr (), print ''Swap Succeeded'' t2)
                 else if status result2 = FAILURE
                   then Some (Inr (), print ''Swap Processed but Failed'' t2)
                 else Some (Inr (), print ''Swap Not Processed'' t2))
          else if status result = FAILURE
            then Some (Inr (), print ''Approval Processed but Failed'' t1)
          else Some (Inr (), print ''Approval Not Processed'' t1))"

section \<open>\<^verbatim>\<open>ListenAndSend\<close>: the block watcher\<close>

text \<open>\<^verbatim>\<open>models.py\<close>, the validators of \<^verbatim>\<open>ListenAndSendConfig\<close>.\<close>

definition validate_num_blocks :: "int \<Rightarrow> exn + int" where
  "validate_num_blocks value = (if value < 0 then Inl ValueError else Inr value)"

definition validate_retries :: "int \<Rightarrow> exn + int" where
  "validate_retries value = (if value < 0 then Inl ValueError else Inr value)"

text \<open>Python's \<^verbatim>\<open>a % b\<close> on ints: floored, and \<^verbatim>\<open>ZeroDivisionError\<close> for \<^verbatim>\<open>b == 0\<close>.\<close>

definition py_mod :: "int \<Rightarrow> int \<Rightarrow> exn + int" where
  "py_mod a b = (if b = 0 then Inl ZeroDivisionError else Inr (a mod b))"

text \<open>
  The node as \<^verbatim>\<open>ListenAndSend\<close> uses it:
  \<^verbatim>\<open>get_web3().eth.get_block("latest").number\<close> and \<^verbatim>\<open>send_ETH(amount, to_address)\<close>.
\<close>

record Web3Node =
  get_block_number :: "int io"
  send_ETH :: "real \<Rightarrow> Address \<Rightarrow> TransactionResult io"

definition recorded_node ::
  "(trace \<Rightarrow> exn + int) \<Rightarrow> (trace \<Rightarrow> exn + TransactionResult) \<Rightarrow> Web3Node" where
  "recorded_node blocks sends =
     \<lparr>get_block_number = ext GetBlockLatest blocks,
      send_ETH = (\<lambda>amt to. ext (SendETH amt to) sends)\<rparr>"

record ListenAndSend =
  amount :: real
  num_blocks :: int
  retries :: int
  to_address :: Address
  web3node :: Web3Node

text \<open>The local variables of \<^verbatim>\<open>execute\<close> that the loop reads and writes.\<close>

record locals =
  current_number :: int
  block_count :: int

text \<open>Lines 99 to 114: the transfer, with its retries and its report.\<close>

definition send_block :: "ListenAndSend \<Rightarrow> trace \<Rightarrow> ((exn + unit) \<times> trace) option" where
  "send_block self t =
     (case call_with_retries ''Transaction Unsucessful''
             (send_ETH (web3node self) (ListenAndSend.amount self) (to_address self))
             (send_ETH (web3node self) (ListenAndSend.amount self) (to_address self))
             (ListenAndSend.retries self) (print ''Sending ETH...'' t) of
        None \<Rightarrow> None
      | Some (Inl e, t1) \<Rightarrow> Some (Inl e, t1)
      | Some (Inr result, t1) \<Rightarrow>
          if status result = SUCCESS then Some (Inr (), print ''Transaction Succeeded'' t1)
          else if status result = FAILURE
            then Some (Inr (), print ''Transaction Processed but Failed'' t1)
          else Some (Inr (), print ''Transaction Not Processed'' t1))"

text \<open>
  The body of the inner \<^verbatim>\<open>try\<close> (lines 92 to 114), once. The locals are returned
  also when the body raises: the assignments before the raise have happened.
\<close>

definition loop_body ::
  "ListenAndSend \<Rightarrow> locals \<Rightarrow> trace \<Rightarrow> ((exn + unit) \<times> locals \<times> trace) option" where
  "loop_body self l t =
     (case get_block_number (web3node self) t of
        (Inl e, t1) \<Rightarrow> Some (Inl e, l, t1)
      | (Inr latest_number, t1) \<Rightarrow>
          if latest_number \<noteq> current_number l then
            (let l1 = l\<lparr>current_number := latest_number\<rparr>;
                 t2 = t1 @ [PrintBlockNumber latest_number]
             in case py_mod (block_count l1 + 1) (num_blocks self) of
                  Inl e \<Rightarrow> Some (Inl e, l1, t2)
                | Inr c \<Rightarrow>
                    (let l2 = l1\<lparr>block_count := c\<rparr>
                     in if block_count l2 = 0 then
                          (case send_block self t2 of
                             None \<Rightarrow> None
                           | Some (Inl e, t3) \<Rightarrow> Some (Inl e, l2, t3)
                           | Some (Inr u, t3) \<Rightarrow> Some (Inr (), l2, t3))
                        else Some (Inr (), l2, t2)))
          else Some (Inr (), l, t1))"

text \<open>
  The \<^verbatim>\<open>while(True)\<close> loop with its two handlers: \<^verbatim>\<open>HTTPError\<close> and
  \<^verbatim>\<open>TimeExhausted\<close> are reported, followed by a sleep of 3, and the loop goes on;
  \<^verbatim>\<open>KeyboardInterrupt\<close> ends the loop normally; any other exception leaves
  \<^verbatim>\<open>execute\<close>. The loop has no other exit, so it is a partial function. An
  interrupt is delivered as the answer of a call to the outside.
\<close>

partial_function (option) execute_loop ::
  "ListenAndSend \<Rightarrow> locals \<Rightarrow> trace \<Rightarrow> ((exn + unit) \<times> locals \<times> trace) option" where
  "execute_loop self l t =
     (case loop_body self l t of
        None \<Rightarrow> None
      | Some (Inr u, l', t') \<Rightarrow> execute_loop self l' t'
      | Some (Inl e, l', t') \<Rightarrow>
          if e = HTTPError \<or> e = TimeExhausted then
            execute_loop self l' (t' @ [PrintRequestError e, Print ''Retrying...'', Sleep 3])
          else if e = KeyboardInterrupt then
            Some (Inr (), l', print (CHR 0x0A # ''Program interrupted. Exiting gracefully...'') t')
          else Some (Inl e, l', t'))"

definition ListenAndSend_execute :: "ListenAndSend \<Rightarrow> trace \<Rightarrow> ((exn + unit) \<times> trace) option" where
  "ListenAndSend_execute self t =
     (case get_block_number (web3node self) (print ''Starting execution...'' t) of
        (Inl e, t1) \<Rightarrow> Some (Inl e, t1)
      | (Inr n, t1) \<Rightarrow>
          (case execute_loop self \<lparr>current_number = n, block_count = 0\<rparr>
                  (t1 @ [PrintBlockNumber n]) of
             None \<Rightarrow> None
           | Some (r, l, t2) \<Rightarrow> Some (r, t2)))"

text \<open>
  For stating properties of a run: the number of height changes a sequence of polls
  shows, starting from the height \<open>c\<close>, and a chain that answers the successive polls
  with the heights of a list, after which the user interrupts the program.
\<close>

fun height_changes :: "int \<Rightarrow> int list \<Rightarrow> nat" where
  "height_changes c [] = 0"
| "height_changes c (p # ps) =
     (if p \<noteq> c then Suc (height_changes p ps) else height_changes c ps)"

definition scripted_blocks :: "int list \<Rightarrow> trace \<Rightarrow> exn + int" where
  "scripted_blocks polls t =
     (let n = count_list t GetBlockLatest
      in if 0 < n \<and> n \<le> length polls then Inr (polls ! (n - 1)) else Inl KeyboardInterrupt)"

section \<open>Sequencing, and Python's \<^verbatim>\<open>try\<close> / \<^verbatim>\<open>except\<close>\<close>

definition io_return :: "'a \<Rightarrow> 'a io" where
  "io_return x t = (Inr x, t)"

definition io_raise :: "exn \<Rightarrow> 'a io" where
  "io_raise e t = (Inl e, t)"

definition io_bind :: "'a io \<Rightarrow> ('a \<Rightarrow> 'b io) \<Rightarrow> 'b io" where
  "io_bind m f t = (case m t of (Inl e, t') \<Rightarrow> (Inl e, t') | (Inr x, t') \<Rightarrow> f x t')"

text \<open>
  \<open>is_instance e c\<close>: an exception of class \<open>e\<close> is an instance of class \<open>c\<close>.
  \<^verbatim>\<open>requests.exceptions.HTTPError\<close> derives from \<^verbatim>\<open>RequestException\<close>, pydantic's
  \<^verbatim>\<open>ValidationError\<close> from \<^verbatim>\<open>ValueError\<close>.
\<close>

definition is_instance :: "exn \<Rightarrow> exn \<Rightarrow> bool" where
  "is_instance e c \<longleftrightarrow>
     e = c \<or> (e = HTTPError \<and> c = RequestException) \<or> (e = ValidationError \<and> c = ValueError)"

text \<open>
  What an \<^verbatim>\<open>except\<close> clause names: exception classes, or some other object (the
  module \<^verbatim>\<open>requests.exceptions\<close> in \<^verbatim>\<open>verify_transaction\<close>). When an exception reaches
  a clause, Python first checks every entry of the tuple and raises \<^verbatim>\<open>TypeError\<close>
  (\<^verbatim>\<open>catching classes that do not inherit from BaseException is not allowed\<close>) if one
  is not an exception class; only then does it match the exception against them.
\<close>

datatype handler_item = ExceptionClass exn | NotAClass string

fun is_exception_class :: "handler_item \<Rightarrow> bool" where
  "is_exception_class (ExceptionClass c) = True"
| "is_exception_class (NotAClass n) = False"

fun item_matches :: "exn \<Rightarrow> handler_item \<Rightarrow> bool" where
  "item_matches e (ExceptionClass c) = is_instance e c"
| "item_matches e (NotAClass n) = False"

definition except_clause :: "handler_item list \<Rightarrow> exn \<Rightarrow> exn + bool" where
  "except_clause items e =
     (if list_all is_exception_class items then Inr (list_ex (item_matches e) items)
      else Inl TypeError)"

fun handle :: "(handler_item list \<times> (exn \<Rightarrow> 'a io)) list \<Rightarrow> exn \<Rightarrow> 'a io" where
  "handle [] e t = (Inl e, t)"
| "handle ((items, handler) # clauses) e t =
     (case except_clause items e of
        Inl type_error \<Rightarrow> (Inl type_error, t)
      | Inr True \<Rightarrow> handler e t
      | Inr False \<Rightarrow> handle clauses e t)"

definition try_except :: "'a io \<Rightarrow> (handler_item list \<times> (exn \<Rightarrow> 'a io)) list \<Rightarrow> 'a io" where
  "try_except body clauses t =
     (case body t of
        (Inr x, t') \<Rightarrow> (Inr x, t')
      | (Inl e, t') \<Rightarrow> handle clauses e t')"

section \<open>\<^verbatim>\<open>web3node.py\<close>\<close>

text \<open>
  The chain client \<^verbatim>\<open>self._web3\<close> of the \<^verbatim>\<open>web3\<close> library: what each of its
  methods answers, as a function of the trace. \<^verbatim>\<open>is_connected()\<close> answers a boolean.
\<close>

record block =
  number :: int
  baseFeePerGas :: "int option"

record receipt =
  receipt_status :: int

record Web3 =
  is_connected :: "trace \<Rightarrow> bool"
  get_block :: "trace \<Rightarrow> exn + block"
  max_priority_fee :: "trace \<Rightarrow> exn + int"
  get_transaction_count :: "trace \<Rightarrow> exn + int"
  chain_id :: "trace \<Rightarrow> exn + int"
  sign_transaction :: "trace \<Rightarrow> exn + string"
  send_raw_transaction :: "trace \<Rightarrow> exn + string"
  wait_for_transaction_receipt :: "trace \<Rightarrow> exn + receipt"

text \<open>\<^verbatim>\<open>models.py\<close>: \<^verbatim>\<open>GasFees\<close>.\<close>

record GasFees =
  maxPriorityFeePerGas :: int
  maxFeePerGas :: int

text \<open>
  \<^verbatim>\<open>get_gas_fees\<close>. \<^verbatim>\<open>latest_block['baseFeePerGas']\<close> raises \<^verbatim>\<open>KeyError\<close> on a block
  without the field; the integers are Python's.
\<close>

definition get_gas_fees :: "Web3 \<Rightarrow> GasFees io" where
  "get_gas_fees web3 =
     io_bind (ext GetBlockLatest (get_block web3)) (\<lambda>latest_block.
     io_bind (ext MaxPriorityFee (max_priority_fee web3)) (\<lambda>priority.
       case baseFeePerGas latest_block of
         None \<Rightarrow> io_raise KeyError
       | Some base_fee \<Rightarrow>
           io_return \<lparr>maxPriorityFeePerGas = priority,
                      maxFeePerGas = (2 * base_fee) + priority\<rparr>))"

text \<open>Dicts: \<^verbatim>\<open>key in d\<close> and \<^verbatim>\<open>d[key] = v\<close>.\<close>

definition contains :: "('k \<times> 'v) list \<Rightarrow> 'k \<Rightarrow> bool" where
  "contains d k \<longleftrightarrow> map_of d k \<noteq> None"

fun setitem :: "('k \<times> 'v) list \<Rightarrow> 'k \<Rightarrow> 'v \<Rightarrow> ('k \<times> 'v) list" where
  "setitem [] k v = [(k, v)]"
| "setitem ((k', v') # d) k v = (if k' = k then (k, v) # d else (k', v') # setitem d k v)"

text \<open>
  \<^verbatim>\<open>models.py\<close>: \<^verbatim>\<open>TransactionData\<close>, a pydantic model. The validators pydantic
  applies to a value given for an \<^verbatim>\<open>int\<close> field and for a \<^verbatim>\<open>str\<close> field belong to
  that library and are parameters here (\<open>None\<close>: the value is rejected). A required
  field must be present; an optional one (\<^verbatim>\<open>int | None = 0\<close>) takes its default when
  absent and accepts \<^verbatim>\<open>None\<close>; keys that are no field are ignored.
\<close>

record pydantic =
  int_validator :: "pyval \<Rightarrow> int option"
  str_validator :: "pyval \<Rightarrow> string option"

record TransactionData =
  nonce :: int
  maxFeePerGas :: int
  maxPriorityFeePerGas :: int
  chainId :: int
  "value" :: "int option"
  gas :: "int option"
  to :: "Address option"
  data :: "string option"

definition required_field :: "(pyval \<Rightarrow> 'a option) \<Rightarrow> pydict \<Rightarrow> string \<Rightarrow> 'a option" where
  "required_field validator d k =
     (case map_of d k of None \<Rightarrow> None | Some PNone \<Rightarrow> None | Some v \<Rightarrow> validator v)"

definition optional_field ::
  "(pyval \<Rightarrow> 'a option) \<Rightarrow> pydict \<Rightarrow> string \<Rightarrow> 'a option \<Rightarrow> 'a option option" where
  "optional_field validator d k dflt =
     (case map_of d k of
        None \<Rightarrow> Some dflt
      | Some PNone \<Rightarrow> Some None
      | Some v \<Rightarrow> (case validator v of None \<Rightarrow> None | Some x \<Rightarrow> Some (Some x)))"

text \<open>\<^verbatim>\<open>TransactionData(**kwargs)\<close>: \<open>None\<close> is pydantic's \<^verbatim>\<open>ValidationError\<close>.\<close>

definition TransactionData_init :: "pydantic \<Rightarrow> pydict \<Rightarrow> TransactionData option" where
  "TransactionData_init py kwargs =
     Option.bind (required_field (int_validator py) kwargs ''nonce'') (\<lambda>n.
     Option.bind (required_field (int_validator py) kwargs ''maxFeePerGas'') (\<lambda>f.
     Option.bind (required_field (int_validator py) kwargs ''maxPriorityFeePerGas'') (\<lambda>p.
     Option.bind (required_field (int_validator py) kwargs ''chainId'') (\<lambda>c.
     Option.bind (optional_field (int_validator py) kwargs ''value'' (Some 0)) (\<lambda>v.
     Option.bind (optional_field (int_validator py) kwargs ''gas'' (Some 400000)) (\<lambda>g.
     Option.bind (optional_field (str_validator py) kwargs ''to'' None) (\<lambda>a.
     Option.bind (optional_field (str_validator py) kwargs ''data'' None) (\<lambda>d.
       Some \<lparr>nonce = n, maxFeePerGas = f, maxPriorityFeePerGas = p, chainId = c,
             value = v, gas = g, to = a, data = d\<rparr>))))))))"

text \<open>\<^verbatim>\<open>to_dictionary\<close>: \<^verbatim>\<open>self.dict(exclude_none=True)\<close>, the fields in their order.\<close>

definition item :: "string \<Rightarrow> ('a \<Rightarrow> pyval) \<Rightarrow> 'a option \<Rightarrow> pydict" where
  "item k wrap v = (case v of None \<Rightarrow> [] | Some x \<Rightarrow> [(k, wrap x)])"

definition to_dictionary :: "TransactionData \<Rightarrow> pydict" where
  "to_dictionary td =
     [(''nonce'', PInt (nonce td)),
      (''maxFeePerGas'', PInt (TransactionData.maxFeePerGas td)),
      (''maxPriorityFeePerGas'', PInt (TransactionData.maxPriorityFeePerGas td)),
      (''chainId'', PInt (chainId td))]
     @ item ''value'' PInt (value td) @ item ''gas'' PInt (gas td)
     @ item ''to'' PStr (to td) @ item ''data'' PStr (data td)"

text \<open>
  \<^verbatim>\<open>build_transaction_data(**override_parameters)\<close>, statement by statement: the
  nonce, the two fee fields, the chain id, then the validation.
\<close>

definition fill_nonce :: "Web3 \<Rightarrow> Address \<Rightarrow> pydict \<Rightarrow> pydict io" where
  "fill_nonce web3 account_address override_parameters =
     (if \<not> contains override_parameters ''nonce'' then
        io_bind (ext (GetTransactionCount account_address) (get_transaction_count web3)) (\<lambda>n.
          io_return (setitem override_parameters ''nonce'' (PInt n)))
      else io_return override_parameters)"

definition fill_gas_fees :: "Web3 \<Rightarrow> pydict \<Rightarrow> pydict io" where
  "fill_gas_fees web3 override_parameters =
     (if \<not> contains override_parameters ''maxFeePerGas''
         \<or> \<not> contains override_parameters ''maxPriorityFeePerGas'' then
        io_bind (get_gas_fees web3) (\<lambda>gas_params.
          let p1 = (if \<not> contains override_parameters ''maxFeePerGas''
                    then setitem override_parameters ''maxFeePerGas''
                           (PInt (GasFees.maxFeePerGas gas_params))
                    else override_parameters);
              p2 = (if \<not> contains p1 ''maxPriorityFeePerGas''
                    then setitem p1 ''maxPriorityFeePerGas''
                           (PInt (GasFees.maxPriorityFeePerGas gas_params))
                    else p1)
          in io_return p2)
      else io_return override_parameters)"

definition fill_chain_id :: "Web3 \<Rightarrow> pydict \<Rightarrow> pydict io" where
  "fill_chain_id web3 override_parameters =
     (if \<not> contains override_parameters ''chainId'' then
        io_bind (ext ChainId (chain_id web3)) (\<lambda>c.
          io_return (setitem override_parameters ''chainId'' (PInt c)))
      else io_return override_parameters)"

definition complete_parameters :: "Web3 \<Rightarrow> Address \<Rightarrow> pydict \<Rightarrow> pydict io" where
  "complete_parameters web3 account_address override_parameters =
     io_bind (fill_nonce web3 account_address override_parameters) (\<lambda>p1.
     io_bind (fill_gas_fees web3 p1) (\<lambda>p2.
       fill_chain_id web3 p2))"

definition build_transaction_data :: "pydantic \<Rightarrow> Web3 \<Rightarrow> Address \<Rightarrow> pydict \<Rightarrow> pydict io" where
  "build_transaction_data py web3 account_address override_parameters =
     io_bind (complete_parameters web3 account_address override_parameters) (\<lambda>p.
       case TransactionData_init py p of
         None \<Rightarrow> io_raise TransactionException
       | Some td \<Rightarrow> io_return (to_dictionary td))"

text \<open>\<^verbatim>\<open>TransactionStatus(value)\<close>: the member with that value, else \<^verbatim>\<open>ValueError\<close>.\<close>

definition TransactionStatus_of :: "int \<Rightarrow> exn + TransactionStatus" where
  "TransactionStatus_of v =
     (if v = 1 then Inr SUCCESS else if v = 0 then Inr FAILURE
      else if v = - 1 then Inr NOT_VERIFIED else Inl ValueError)"

text \<open>
  \<^verbatim>\<open>verify_transaction\<close>. Its handler is written
  \<^verbatim>\<open>except (TimeExhausted, requests.exceptions, ValueError)\<close>: the second entry is the
  module, not a class of it.
\<close>

definition verify_transaction :: "Web3 \<Rightarrow> string \<Rightarrow> int \<Rightarrow> TransactionStatus io" where
  "verify_transaction web3 transaction_hash timeout =
     try_except
       (io_bind (ext (WaitForReceipt transaction_hash timeout) (wait_for_transaction_receipt web3))
          (\<lambda>receipt t. (TransactionStatus_of (receipt_status receipt), t)))
       [([ExceptionClass TimeExhausted, NotAClass ''requests.exceptions'', ExceptionClass ValueError],
         (\<lambda>e t. (Inr NOT_VERIFIED, t @ [PrintVerifyError e])))]"

text \<open>\<^verbatim>\<open>send_transaction\<close>: sign, send, verify with the default timeout of 120.\<close>

definition send_transaction :: "Web3 \<Rightarrow> pydict \<Rightarrow> TransactionResult io" where
  "send_transaction web3 transaction =
     io_bind
       (try_except (ext (SignTransaction transaction) (sign_transaction web3))
          [([ExceptionClass ValueError, ExceptionClass TypeError],
            (\<lambda>e. io_raise TransactionException))])
       (\<lambda>raw_transaction.
     io_bind
       (try_except (ext (SendRawTransaction raw_transaction) (send_raw_transaction web3))
          [([ExceptionClass ValueError], (\<lambda>e. io_raise TransactionException)),
           ([ExceptionClass RequestException], (\<lambda>e. io_raise TransactionException))])
       (\<lambda>transaction_hash.
     io_bind (verify_transaction web3 transaction_hash 120) (\<lambda>st.
       io_return \<lparr>status = st, transactionHash = transaction_hash\<rparr>)))"

text \<open>
  \<^verbatim>\<open>_initialize_web3\<close>: a client is made, and while it does not report connected and
  \<^verbatim>\<open>retried != self.retries\<close>, a line is printed, the program sleeps 1 and makes a new
  client. After the loop \<^verbatim>\<open>is_connected()\<close> is asked once more.
\<close>

partial_function (option) connect_loop ::
  "Web3 \<Rightarrow> string \<Rightarrow> int \<Rightarrow> int \<Rightarrow> trace \<Rightarrow> trace option" where
  "connect_loop web3 rpc_endpoint self_retries retried t =
     (if \<not> is_connected web3 (t @ [IsConnected]) \<and> retried \<noteq> self_retries then
        connect_loop web3 rpc_endpoint self_retries (retried + 1)
          (t @ [IsConnected, Print ''Web3 connection failed. Retrying..'', Sleep 1,
                NewWeb3 rpc_endpoint])
      else Some (t @ [IsConnected]))"

definition initialize_web3 ::
  "Web3 \<Rightarrow> string \<Rightarrow> int \<Rightarrow> trace \<Rightarrow> ((exn + unit) \<times> trace) option" where
  "initialize_web3 web3 rpc_endpoint self_retries t =
     (case connect_loop web3 rpc_endpoint self_retries 0 (t @ [NewWeb3 rpc_endpoint]) of
        None \<Rightarrow> None
      | Some t1 \<Rightarrow>
          if \<not> is_connected web3 (t1 @ [IsConnected])
          then Some (Inl Web3ConnectionException, t1 @ [IsConnected])
          else Some (Inr (), t1 @ [IsConnected]))"

text \<open>
  For stating what \<^verbatim>\<open>build_transaction_data\<close> asks the chain: the calls made for a
  set of overrides, in order, and the four fields it completes.
\<close>

definition chain_events :: "Address \<Rightarrow> pydict \<Rightarrow> event list" where
  "chain_events a p =
     (if contains p ''nonce'' then [] else [GetTransactionCount a])
     @ (if contains p ''maxFeePerGas'' \<and> contains p ''maxPriorityFeePerGas''
        then [] else [GetBlockLatest, MaxPriorityFee])
     @ (if contains p ''chainId'' then [] else [ChainId])"

definition four_fields :: "string list" where
  "four_fields = [''nonce'', ''maxFeePerGas'', ''maxPriorityFeePerGas'', ''chainId'']"

text \<open>
  Collaborators for concrete runs: pydantic validators that accept an int for an
  \<^verbatim>\<open>int\<close> field and a string for a \<^verbatim>\<open>str\<close> field and nothing else, a chain client
  that answers every call with the same values, and one whose endpoint is never
  reached.
\<close>

definition simple_pydantic :: pydantic where
  "simple_pydantic =
     \<lparr>int_validator = (\<lambda>v. case v of PInt i \<Rightarrow> Some i | _ \<Rightarrow> None),
      str_validator = (\<lambda>v. case v of PStr s \<Rightarrow> Some s | _ \<Rightarrow> None)\<rparr>"

definition steady_web3 :: "int \<Rightarrow> block \<Rightarrow> int \<Rightarrow> int \<Rightarrow> Web3" where
  "steady_web3 n blk priority cid =
     \<lparr>is_connected = (\<lambda>t. True),
      get_block = (\<lambda>t. Inr blk),
      max_priority_fee = (\<lambda>t. Inr priority),
      get_transaction_count = (\<lambda>t. Inr n),
      chain_id = (\<lambda>t. Inr cid),
      sign_transaction = (\<lambda>t. Inr ''0xsigned''),
      send_raw_transaction = (\<lambda>t. Inr ''0xhash''),
      wait_for_transaction_receipt = (\<lambda>t. Inr \<lparr>receipt_status = 1\<rparr>)\<rparr>"

definition unreachable_web3 :: Web3 where
  "unreachable_web3 =
     \<lparr>is_connected = (\<lambda>t. False),
      get_block = (\<lambda>t. Inl RequestException),
      max_priority_fee = (\<lambda>t. Inl RequestException),
      get_transaction_count = (\<lambda>t. Inl RequestException),
      chain_id = (\<lambda>t. Inl RequestException),
      sign_transaction = (\<lambda>t. Inr ''0xsigned''),
      send_raw_transaction = (\<lambda>t. Inl RequestException),
      wait_for_transaction_receipt = (\<lambda>t. Inl RequestException)\<rparr>"

text \<open>
  For stating the trace of the connection setup: what one failed round of the loop
  of \<^verbatim>\<open>_initialize_web3\<close> adds to the trace.
\<close>


definition retry_round :: "string \<Rightarrow> event list" where
  "retry_round rpc_endpoint =
     [IsConnected, Print ''Web3 connection failed. Retrying..'', Sleep 1, NewWeb3 rpc_endpoint]"


section \<open>\<^verbatim>\<open>swap.py\<close>: the Curve swapper\<close>

text \<open>
  The pool contract \<^verbatim>\<open>self._contract\<close>: what \<^verbatim>\<open>N_COINS().call()\<close>,
  \<^verbatim>\<open>coins(i).call()\<close>, \<^verbatim>\<open>get_dy(i, j, amount).call()\<close> and
  \<^verbatim>\<open>exchange(...).build_transaction(tx)\<close> answer, as functions of the trace.
\<close>

record CurveContract =
  N_COINS :: "trace \<Rightarrow> exn + int"
  coins :: "trace \<Rightarrow> exn + Address"
  get_dy :: "trace \<Rightarrow> exn + int"
  exchange_build_transaction :: "trace \<Rightarrow> exn + pydict"

text \<open>\<^verbatim>\<open>models.py\<close>: \<^verbatim>\<open>CurveData\<close>.\<close>

record CurveData =
  tokenInIndex :: int
  tokenOutIndex :: int
  dy :: int
  min_dy :: int

text \<open>\<^verbatim>\<open>range(n)\<close>, \<^verbatim>\<open>d[key]\<close>, and a value or exception as a computation.\<close>

definition py_range :: "int \<Rightarrow> int list" where
  "py_range n = map int [0..<nat n]"

definition getitem :: "('k \<times> 'v) list \<Rightarrow> 'k \<Rightarrow> exn + 'v" where
  "getitem d k = (case map_of d k of None \<Rightarrow> Inl KeyError | Some v \<Rightarrow> Inr v)"

definition io_of :: "exn + 'a \<Rightarrow> 'a io" where
  "io_of r t = (r, t)"

text \<open>
  \<^verbatim>\<open>await asyncio.gather(*tasks)\<close> on coroutines that never suspend (\<^verbatim>\<open>_lookup_coin\<close>
  awaits nothing): the event loop runs every one of them to its end, in the order of
  the list, and the \<^verbatim>\<open>await\<close> then gives the list of results, or raises the exception
  of the first one that raised.
\<close>

fun run_all :: "'a io list \<Rightarrow> trace \<Rightarrow> (exn + 'a) list \<times> trace" where
  "run_all [] t = ([], t)"
| "run_all (task # tasks) t =
     (case task t of (r, t1) \<Rightarrow> (case run_all tasks t1 of (rs, t2) \<Rightarrow> (r # rs, t2)))"

fun results_or_first_exception :: "(exn + 'a) list \<Rightarrow> exn + 'a list" where
  "results_or_first_exception [] = Inr []"
| "results_or_first_exception (Inl e # rs) = Inl e"
| "results_or_first_exception (Inr x # rs) =
     (case results_or_first_exception rs of Inl e \<Rightarrow> Inl e | Inr xs \<Rightarrow> Inr (x # xs))"

definition asyncio_gather :: "'a io list \<Rightarrow> 'a list io" where
  "asyncio_gather tasks t =
     (case run_all tasks t of (rs, t1) \<Rightarrow> (results_or_first_exception rs, t1))"

text \<open>\<^verbatim>\<open>_lookup_coin(index, coin_set)\<close>.\<close>

definition lookup_coin :: "CurveContract \<Rightarrow> int \<Rightarrow> Address list \<Rightarrow> (Address \<times> int) list io" where
  "lookup_coin contract index coin_set =
     try_except
       (io_bind (ext (CallCoins index) (coins contract)) (\<lambda>a.
          io_return (if a \<in> set coin_set then [(a, index)] else [])))
       [([ExceptionClass ContractLogicError, ExceptionClass ABIFunctionNotFound],
         (\<lambda>e. io_raise SwapException))]"

text \<open>
  \<^verbatim>\<open>get_coin_indexes(coin_addresses)\<close>; the dict comprehension inserts the items of
  the results in order, a later slot replacing the index of an earlier one with the
  same address.
\<close>

definition get_coin_indexes :: "CurveContract \<Rightarrow> Address list \<Rightarrow> (Address \<times> int) list io" where
  "get_coin_indexes contract coin_addresses =
     io_bind
       (try_except (ext CallNCoins (N_COINS contract))
          [([ExceptionClass ContractLogicError, ExceptionClass ABIFunctionNotFound],
            (\<lambda>e. io_raise SwapException))])
       (\<lambda>num_coins.
     io_bind
       (asyncio_gather (map (\<lambda>i. lookup_coin contract i coin_addresses) (py_range num_coins)))
       (\<lambda>results.
          io_return (foldl (\<lambda>d (k, v). setitem d k v) [] (concat results))))"

text \<open>
  \<^verbatim>\<open>_prepare_swap\<close>. \<^verbatim>\<open>CurveData(...)\<close> is given integers; of its arguments only
  \<^verbatim>\<open>min_dy\<close> (\<^verbatim>\<open>Optional[int]\<close>) can fail the validation, when it is \<^verbatim>\<open>None\<close>.
\<close>

definition prepare_swap ::
  "CurveContract \<Rightarrow> Address \<Rightarrow> Address \<Rightarrow> int \<Rightarrow> int option \<Rightarrow> CurveData io" where
  "prepare_swap contract sell_coin_address buy_coin_address amount_in min_dy_given =
     io_bind (get_coin_indexes contract [sell_coin_address, buy_coin_address]) (\<lambda>indexes.
       if length indexes \<noteq> 2 then io_raise SwapException
       else
         io_bind
           (try_except
              (io_bind (io_of (getitem indexes sell_coin_address)) (\<lambda>i.
               io_bind (io_of (getitem indexes buy_coin_address)) (\<lambda>j.
                 ext (CallGetDy i j amount_in) (get_dy contract))))
              [([ExceptionClass ContractLogicError, ExceptionClass ABIFunctionNotFound,
                 ExceptionClass ValueError],
                (\<lambda>e. io_raise SwapException))])
           (\<lambda>estimated_dy.
              try_except
                (io_bind (io_of (getitem indexes sell_coin_address)) (\<lambda>i.
                 io_bind (io_of (getitem indexes buy_coin_address)) (\<lambda>j.
                   case min_dy_given of
                     None \<Rightarrow> io_raise ValidationError
                   | Some m \<Rightarrow>
                       io_return \<lparr>tokenInIndex = i, tokenOutIndex = j,
                                  dy = estimated_dy, min_dy = m\<rparr>)))
                [([ExceptionClass ValidationError], (\<lambda>e. io_raise SwapException))]))"

text \<open>
  \<^verbatim>\<open>Curve.swap\<close>: prepare, build the exchange transaction on the transaction data
  of the node (no overrides), send.
\<close>

definition Curve_swap ::
  "pydantic \<Rightarrow> Web3 \<Rightarrow> Address \<Rightarrow> CurveContract \<Rightarrow> Address \<Rightarrow> Address \<Rightarrow> int \<Rightarrow> int option
     \<Rightarrow> TransactionResult io" where
  "Curve_swap py web3 account_address contract sell_coin_address buy_coin_address amount_in
       min_dy_given =
     io_bind (prepare_swap contract sell_coin_address buy_coin_address amount_in min_dy_given)
       (\<lambda>swap_data.
     io_bind (build_transaction_data py web3 account_address []) (\<lambda>tx.
     io_bind
       (ext (BuildExchange (tokenInIndex swap_data) (tokenOutIndex swap_data) (dy swap_data)
               (min_dy swap_data) tx)
          (exchange_build_transaction contract))
       (\<lambda>transaction. send_transaction web3 transaction)))"

text \<open>
  For stating the result of the index lookup on a pool whose slot \<open>i\<close> holds the coin
  \<open>pool i\<close>: the items one slot contributes, and the dict built from the \<open>K\<close> slots.
\<close>

definition slot_items :: "(int \<Rightarrow> Address) \<Rightarrow> Address list \<Rightarrow> int \<Rightarrow> (Address \<times> int) list" where
  "slot_items pool cs i = (if pool i \<in> set cs then [(pool i, i)] else [])"

definition merged :: "(int \<Rightarrow> Address) \<Rightarrow> Address list \<Rightarrow> int \<Rightarrow> (Address \<times> int) list" where
  "merged pool cs K =
     foldl (\<lambda>d (k, v). setitem d k v) [] (concat (map (slot_items pool cs) (py_range K)))"

text \<open>A pool contract for concrete runs: its coins by slot, and a fixed quote.\<close>

definition listed_pool :: "Address list \<Rightarrow> int \<Rightarrow> CurveContract" where
  "listed_pool pool_coins quote =
     \<lparr>N_COINS = (\<lambda>t. Inr (int (length pool_coins))),
      coins = (\<lambda>t. case last t of
                      CallCoins i \<Rightarrow>
                        if 0 \<le> i \<and> i < int (length pool_coins) then Inr (pool_coins ! nat i)
                        else Inl ContractLogicError
                    | _ \<Rightarrow> Inl ContractLogicError),
      get_dy = (\<lambda>t. Inr quote),
      exchange_build_transaction = (\<lambda>t. Inr [])\<rparr>"

section \<open>Properties of the retry loop\<close>

lemma retry_while_failing:
  assumes fails: "\<forall>t. \<exists>r. oracle t = Inr r \<and> status r \<noteq> SUCCESS"
    and noprint: "\<forall>s. ev \<noteq> Print s"
    and r0: "status r0 \<noteq> SUCCESS"
  shows "n = nat (R - retried) \<Longrightarrow> retried \<le> R \<Longrightarrow>
    \<exists>tr r. retry_while msg (ext ev oracle) R r0 retried t = Some (Inr r, t @ tr)
       \<and> count_list tr ev = n
       \<and> status r \<noteq> SUCCESS
       \<and> (if n = 0 then tr = [] \<and> r = r0 else last tr = ev \<and> oracle (t @ tr) = Inr r)"
  using r0
proof (induction n arbitrary: retried r0 t)
  case 0
  then have "retried = R" by simp
  then show ?case using 0 by (simp add: retry_while.simps)
next
  case (Suc n)
  let ?t1 = "print ''Retrying...'' (print msg t) @ [ev]"
  from Suc.prems have neq: "retried \<noteq> R" by auto
  obtain r1 where r1: "oracle ?t1 = Inr r1" "status r1 \<noteq> SUCCESS"
    using fails by blast
  have n: "n = nat (R - (retried + 1))" and le: "retried + 1 \<le> R"
    using Suc.prems by auto
  from Suc.IH [OF n le r1(2), of ?t1]
  obtain tr r where IH:
    "retry_while msg (ext ev oracle) R r1 (retried + 1) ?t1 = Some (Inr r, ?t1 @ tr)"
    "count_list tr ev = n" "status r \<noteq> SUCCESS"
    "(if n = 0 then tr = [] \<and> r = r1 else last tr = ev \<and> oracle (?t1 @ tr) = Inr r)"
    by blast
  let ?tr = "[Print msg, Print ''Retrying...'', ev] @ tr"
  have step: "retry_while msg (ext ev oracle) R r0 retried t =
      retry_while msg (ext ev oracle) R r1 (retried + 1) ?t1"
    using neq Suc.prems(3) r1(1)
    by (subst retry_while.simps) (simp add: ext_def)
  have app: "?t1 @ tr = t @ ?tr" by (simp add: print_def)
  from noprint have np: "Print s \<noteq> ev" for s by auto
  have c: "count_list ?tr ev = Suc n"
    using IH(2) np by simp
  have l: "last ?tr = ev \<and> oracle (t @ ?tr) = Inr r"
  proof (cases "n = 0")
    case True
    with IH(4) have "tr = []" "r = r1" by simp_all
    then show ?thesis using r1(1) by (simp add: print_def)
  next
    case False
    with IH(4) have "last tr = ev" "oracle (?t1 @ tr) = Inr r" by simp_all
    moreover from False IH(2) have "tr \<noteq> []" by auto
    ultimately show ?thesis using app by simp
  qed
  show ?case
    using step IH(1) IH(3) c l app by (intro exI [of _ ?tr] exI [of _ r]) simp
qed

text \<open>
  C1. For every retry budget \<open>R \<ge> 0\<close> and every operation that answers each call
  with a result whose status is not \<open>SUCCESS\<close>, the first call followed by the retry
  loop returns (it raises nothing and it does return), the operation has been called
  exactly \<open>R + 1\<close> times, the last event is a call of the operation, and the result
  returned is the answer to that last call. The loop's test is the inequality
  \<open>retried \<noteq> retries\<close> of the definition, with \<open>retried\<close> starting at 0 and
  incremented before each retried call.
\<close>

theorem retry_exhaustion:
  assumes "0 \<le> R"
    and "\<forall>t. \<exists>r. oracle t = Inr r \<and> status r \<noteq> SUCCESS"
    and "\<forall>s. ev \<noteq> Print s"
  shows "\<exists>tr r. call_with_retries msg (ext ev oracle) (ext ev oracle) R t = Some (Inr r, t @ tr)
     \<and> count_list tr ev = nat R + 1
     \<and> last tr = ev
     \<and> oracle (t @ tr) = Inr r
     \<and> status r \<noteq> SUCCESS"
proof -
  obtain r0 where r0: "oracle (t @ [ev]) = Inr r0" "status r0 \<noteq> SUCCESS"
    using assms(2) by blast
  from retry_while_failing [OF assms(2) assms(3) r0(2), of "nat R" R 0 msg "t @ [ev]"] assms(1)
  obtain tr r where L:
    "retry_while msg (ext ev oracle) R r0 0 (t @ [ev]) = Some (Inr r, (t @ [ev]) @ tr)"
    "count_list tr ev = nat R" "status r \<noteq> SUCCESS"
    "(if nat R = 0 then tr = [] \<and> r = r0 else last tr = ev \<and> oracle ((t @ [ev]) @ tr) = Inr r)"
    by auto
  have first: "call_with_retries msg (ext ev oracle) (ext ev oracle) R t =
      retry_while msg (ext ev oracle) R r0 0 (t @ [ev])"
    using r0(1) by (simp add: call_with_retries_def ext_def)
  have l: "last (ev # tr) = ev \<and> oracle (t @ ev # tr) = Inr r"
  proof (cases "nat R = 0")
    case True
    with L(4) show ?thesis using r0(1) by simp
  next
    case False
    with L(4) have "last tr = ev" "oracle ((t @ [ev]) @ tr) = Inr r" by simp_all
    moreover from False L(2) have "tr \<noteq> []" by auto
    ultimately show ?thesis by simp
  qed
  show ?thesis
    using first L(1) L(2) L(3) l by (intro exI [of _ "ev # tr"] exI [of _ r]) simp
qed


theorem retry_exhaustion_witness:
  "(0::int) \<le> 2 \<and>
   (\<exists>tr r. call_with_retries ''Transaction Unsucessful''
        (ext (SendETH 1 ''0xb0b'') (\<lambda>t. Inr \<lparr>status = FAILURE, transactionHash = ''0x01''\<rparr>))
        (ext (SendETH 1 ''0xb0b'') (\<lambda>t. Inr \<lparr>status = FAILURE, transactionHash = ''0x01''\<rparr>))
        2 [] = Some (Inr r, tr)
      \<and> count_list tr (SendETH 1 ''0xb0b'') = 3 \<and> status r = FAILURE)"
  using retry_exhaustion [of 2 "\<lambda>t. Inr \<lparr>status = FAILURE, transactionHash = ''0x01''\<rparr>"
      "SendETH 1 ''0xb0b''" "''Transaction Unsucessful''" "[]"]
  by auto


section \<open>Properties of a leg\<close>

text \<open>
  For any answers of the outside: from \<open>retried \<le> R\<close> the loop returns; the calls it
  has made (the events that are not printed lines) are \<open>k \<le> R - retried\<close> copies of the
  retried call; a result that is not \<open>SUCCESS\<close> is retried while a retry is left, and
  a loop whose operation never succeeds uses every retry.
\<close>

lemma retry_while_run:
  assumes np: "\<not> is_Print ev"
  shows "n = nat (R - retried) \<Longrightarrow> retried \<le> R \<Longrightarrow>
    \<exists>res tr k. retry_while msg (ext ev oracle) R r0 retried t = Some (res, t @ tr)
       \<and> k \<le> n \<and> filter (\<lambda>e. \<not> is_Print e) tr = replicate k ev
       \<and> set tr \<subseteq> {Print msg, Print ''Retrying...'', ev}
       \<and> ((\<forall>t. \<exists>r. oracle t = Inr r) \<longrightarrow> (\<exists>r. res = Inr r))
       \<and> (status r0 \<noteq> SUCCESS \<and> 0 < n \<longrightarrow>
            (\<exists>rest. tr = [Print msg, Print ''Retrying...'', ev] @ rest))
       \<and> (status r0 \<noteq> SUCCESS \<and> (\<forall>t. \<exists>r. oracle t = Inr r \<and> status r \<noteq> SUCCESS) \<longrightarrow> k = n)
       \<and> (status r0 = SUCCESS \<longrightarrow> tr = [] \<and> res = Inr r0)"
proof (induction n arbitrary: retried r0 t)
  case 0
  then have "retried = R" by simp
  then have "retry_while msg (ext ev oracle) R r0 retried t = Some (Inr r0, t @ [])"
    by (simp add: retry_while.simps)
  then show ?case by (intro exI [of _ "Inr r0"] exI [of _ "[]"] exI [of _ 0]) simp
next
  case (Suc n)
  let ?t1 = "print ''Retrying...'' (print msg t) @ [ev]"
  let ?three = "[Print msg, Print ''Retrying...'', ev]"
  from Suc.prems have neq: "retried \<noteq> R" by auto
  have n: "n = nat (R - (retried + 1))" and le: "retried + 1 \<le> R"
    using Suc.prems by auto
  show ?case
  proof (cases "status r0 = SUCCESS")
    case True
    then have "retry_while msg (ext ev oracle) R r0 retried t = Some (Inr r0, t @ [])"
      by (simp add: retry_while.simps)
    then show ?thesis using True
      by (intro exI [of _ "Inr r0"] exI [of _ "[]"] exI [of _ 0]) simp
  next
    case False
    show ?thesis
    proof (cases "oracle ?t1")
      case (Inl e)
      then have run: "retry_while msg (ext ev oracle) R r0 retried t = Some (Inl e, t @ ?three)"
        using False neq by (subst retry_while.simps) (simp add: ext_def print_def)
      have f: "filter (\<lambda>e. \<not> is_Print e) ?three = replicate 1 ev"
        using np by simp
      have noall: "\<not> (\<forall>t. \<exists>r. oracle t = Inr r)"
        using Inl by (metis sum.distinct(1))
      then have noall2: "\<not> (\<forall>t. \<exists>r. oracle t = Inr r \<and> status r \<noteq> SUCCESS)" by blast
      have k: "(1::nat) \<le> Suc n" by simp
      have s: "set ?three \<subseteq> {Print msg, Print ''Retrying...'', ev}" by simp
      have d: "\<exists>rest. ?three = ?three @ rest" by simp
      show ?thesis
        apply (rule exI [of _ "Inl e"], rule exI [of _ ?three], rule exI [of _ 1])
        using run f noall noall2 False k s d by blast
    next
      case (Inr r1)
      from Suc.IH [OF n le, of r1 ?t1]
      obtain res tr k where IH:
        "retry_while msg (ext ev oracle) R r1 (retried + 1) ?t1 = Some (res, ?t1 @ tr)"
        "k \<le> n" "filter (\<lambda>e. \<not> is_Print e) tr = replicate k ev"
        "set tr \<subseteq> {Print msg, Print ''Retrying...'', ev}"
        "(\<forall>t. \<exists>r. oracle t = Inr r) \<longrightarrow> (\<exists>r. res = Inr r)"
        "status r1 \<noteq> SUCCESS \<and> (\<forall>t. \<exists>r. oracle t = Inr r \<and> status r \<noteq> SUCCESS) \<longrightarrow> k = n"
        by blast
      have run: "retry_while msg (ext ev oracle) R r0 retried t = Some (res, t @ (?three @ tr))"
        using False neq Inr IH(1)
        by (subst retry_while.simps) (simp add: ext_def print_def)
      have f: "filter (\<lambda>e. \<not> is_Print e) (?three @ tr) = replicate (Suc k) ev"
        using np IH(3) by simp
      have s: "set (?three @ tr) \<subseteq> {Print msg, Print ''Retrying...'', ev}"
        using IH(4) by auto
      have e: "status r0 \<noteq> SUCCESS \<and> (\<forall>t. \<exists>r. oracle t = Inr r \<and> status r \<noteq> SUCCESS)
          \<longrightarrow> Suc k = Suc n"
      proof
        assume a: "status r0 \<noteq> SUCCESS \<and> (\<forall>t. \<exists>r. oracle t = Inr r \<and> status r \<noteq> SUCCESS)"
        then obtain r where "oracle ?t1 = Inr r \<and> status r \<noteq> SUCCESS" by blast
        with Inr have "status r1 \<noteq> SUCCESS" by simp
        with a IH(6) show "Suc k = Suc n" by simp
      qed
      have d: "\<exists>rest. ?three @ tr = ?three @ rest" by blast
      have k: "Suc k \<le> Suc n" using IH(2) by simp
      show ?thesis
        apply (rule exI [of _ res], rule exI [of _ "?three @ tr"], rule exI [of _ "Suc k"])
        using run k f s IH(5) e d False by blast
    qed
  qed
qed

lemma call_with_retries_run:
  assumes np: "\<not> is_Print ev1" "\<not> is_Print ev2" and R: "0 \<le> R"
  shows "\<exists>res tr k. call_with_retries msg (ext ev1 o1) (ext ev2 o2) R t = Some (res, t @ tr)
       \<and> k \<le> nat R \<and> filter (\<lambda>e. \<not> is_Print e) tr = ev1 # replicate k ev2
       \<and> set tr \<subseteq> {Print msg, Print ''Retrying...'', ev1, ev2}
       \<and> ((\<forall>t. \<exists>r. o1 t = Inr r) \<and> (\<forall>t. \<exists>r. o2 t = Inr r) \<longrightarrow> (\<exists>r. res = Inr r))
       \<and> ((\<exists>r. o1 (t @ [ev1]) = Inr r \<and> status r \<noteq> SUCCESS) \<and> 1 \<le> R \<longrightarrow>
            (\<exists>rest. tr = [ev1, Print msg, Print ''Retrying...'', ev2] @ rest))
       \<and> ((\<exists>r. o1 (t @ [ev1]) = Inr r \<and> status r \<noteq> SUCCESS)
            \<and> (\<forall>t. \<exists>r. o2 t = Inr r \<and> status r \<noteq> SUCCESS) \<longrightarrow> k = nat R)
       \<and> ((\<exists>r. o1 (t @ [ev1]) = Inr r \<and> status r = SUCCESS) \<longrightarrow>
            tr = [ev1] \<and> res = o1 (t @ [ev1]))"
proof (cases "o1 (t @ [ev1])")
  case (Inl e)
  then have run: "call_with_retries msg (ext ev1 o1) (ext ev2 o2) R t = Some (Inl e, t @ [ev1])"
    by (simp add: call_with_retries_def ext_def)
  have f: "filter (\<lambda>e. \<not> is_Print e) [ev1] = ev1 # replicate 0 ev2"
    using np(1) by simp
  have noall: "\<not> (\<forall>t. \<exists>r. o1 t = Inr r)"
    using Inl by (metis sum.distinct(1))
  have s: "set [ev1] \<subseteq> {Print msg, Print ''Retrying...'', ev1, ev2}" by simp
  have no: "\<not> (\<exists>r. o1 (t @ [ev1]) = Inr r \<and> status r \<noteq> SUCCESS)"
    "\<not> (\<exists>r. o1 (t @ [ev1]) = Inr r \<and> status r = SUCCESS)"
    using Inl by simp_all
  have k: "(0::nat) \<le> nat R" by simp
  show ?thesis
    apply (rule exI [of _ "Inl e"], rule exI [of _ "[ev1]"], rule exI [of _ 0])
    using run f noall s no k by blast
next
  case (Inr r0)
  have pre: "nat R = nat (R - 0)" "0 \<le> R" using R by simp_all
  from retry_while_run [OF np(2) pre, of msg o2 r0 "t @ [ev1]"]
  obtain res tr k where L:
    "retry_while msg (ext ev2 o2) R r0 0 (t @ [ev1]) = Some (res, (t @ [ev1]) @ tr)"
    "k \<le> nat R" "filter (\<lambda>e. \<not> is_Print e) tr = replicate k ev2"
    "set tr \<subseteq> {Print msg, Print ''Retrying...'', ev2}"
    "(\<forall>t. \<exists>r. o2 t = Inr r) \<longrightarrow> (\<exists>r. res = Inr r)"
    "status r0 \<noteq> SUCCESS \<and> 0 < nat R \<longrightarrow>
        (\<exists>rest. tr = [Print msg, Print ''Retrying...'', ev2] @ rest)"
    "status r0 \<noteq> SUCCESS \<and> (\<forall>t. \<exists>r. o2 t = Inr r \<and> status r \<noteq> SUCCESS) \<longrightarrow> k = nat R"
    "status r0 = SUCCESS \<longrightarrow> tr = [] \<and> res = Inr r0"
    by blast
  have run: "call_with_retries msg (ext ev1 o1) (ext ev2 o2) R t = Some (res, t @ (ev1 # tr))"
    using Inr L(1) by (simp add: call_with_retries_def ext_def)
  have f: "filter (\<lambda>e. \<not> is_Print e) (ev1 # tr) = ev1 # replicate k ev2"
    using np(1) L(3) by simp
  have s: "set (ev1 # tr) \<subseteq> {Print msg, Print ''Retrying...'', ev1, ev2}"
    using L(4) by auto
  have d: "(\<exists>r. o1 (t @ [ev1]) = Inr r \<and> status r \<noteq> SUCCESS) \<and> 1 \<le> R \<longrightarrow>
            (\<exists>rest. ev1 # tr = [ev1, Print msg, Print ''Retrying...'', ev2] @ rest)"
    using L(6) Inr by auto
  have e: "(\<exists>r. o1 (t @ [ev1]) = Inr r \<and> status r \<noteq> SUCCESS)
            \<and> (\<forall>t. \<exists>r. o2 t = Inr r \<and> status r \<noteq> SUCCESS) \<longrightarrow> k = nat R"
    using L(7) Inr by auto
  have g: "(\<exists>r. o1 (t @ [ev1]) = Inr r \<and> status r = SUCCESS) \<longrightarrow>
            ev1 # tr = [ev1] \<and> res = o1 (t @ [ev1])"
    using L(8) Inr by auto
  show ?thesis
    apply (rule exI [of _ res], rule exI [of _ "ev1 # tr"], rule exI [of _ k])
    using run L(2) f s L(5) d e g by blast
qed

lemma Swap_not_Print: "is_Swap e \<Longrightarrow> \<not> is_Print e"
  by (cases e) simp_all

lemma filter_Swap_nonprint:
  "filter is_Swap tr = filter is_Swap (filter (\<lambda>e. \<not> is_Print e) tr)"
  by (induction tr) (simp_all add: Swap_not_Print)

lemma filter_Swap_via_nonprint:
  assumes "filter (\<lambda>e. \<not> is_Print e) tr = xs"
  shows "filter is_Swap tr = filter is_Swap xs"
  using assms filter_Swap_nonprint [of tr] by simp

text \<open>
  C3. A leg of the arbitrage, run with any swapper \<open>a\<close> and any answers of the
  outside, returns for every non-negative retry budget, and the swap calls it has
  made are either none or the first swap on the leg's own swapper \<open>a\<close> followed by
  \<open>k \<le> retries\<close> retried swaps, every one of them on \<^verbatim>\<open>self._swapper_1\<close> (\<open>a1\<close>).
  When the approval succeeds the first swap is made; when its result is not
  \<open>SUCCESS\<close> and a retry is left, the leg goes on with the two printed lines and a
  swap on \<open>a1\<close>; and when no swap on \<open>a1\<close> succeeds either, all \<open>retries\<close> retried
  swaps are made, on \<open>a1\<close>.
\<close>

theorem swap_retry_via_first_swapper:
  assumes R: "0 \<le> Arbitrage.retries self"
    and s1: "swapper_1 self = recorded_swapper a1 o1"
  shows "\<exists>res tr k. Arbitrage_swap self (recorded_coin c oc) (recorded_swapper a o2) buy t
        = Some (res, t @ tr)
     \<and> k \<le> nat (Arbitrage.retries self)
     \<and> (filter is_Swap tr = [] \<or>
         filter is_Swap tr = Swap a c buy (Arbitrage.amount self)
            # replicate k (Swap a1 c buy (Arbitrage.amount self)))
     \<and> ((\<exists>r. oc (t @ [Approve c a (Arbitrage.amount self)]) = Inr r \<and> status r = SUCCESS) \<longrightarrow>
          filter is_Swap tr = Swap a c buy (Arbitrage.amount self)
            # replicate k (Swap a1 c buy (Arbitrage.amount self))
          \<and> ((\<exists>r. o2 (t @ [Approve c a (Arbitrage.amount self), Print ''Approval Succeeded'',
                          Swap a c buy (Arbitrage.amount self)]) = Inr r
                   \<and> status r \<noteq> SUCCESS) \<longrightarrow>
               (1 \<le> Arbitrage.retries self \<longrightarrow>
                  (\<exists>rest. tr = [Approve c a (Arbitrage.amount self), Print ''Approval Succeeded'',
                                Swap a c buy (Arbitrage.amount self),
                                Print ''Swap Unsucessful'', Print ''Retrying...'',
                                Swap a1 c buy (Arbitrage.amount self)] @ rest))
               \<and> ((\<forall>t. \<exists>r. o1 t = Inr r \<and> status r \<noteq> SUCCESS) \<longrightarrow>
                    k = nat (Arbitrage.retries self))))"
proof -
  let ?amt = "Arbitrage.amount self"
  let ?R = "Arbitrage.retries self"
  let ?ap = "Approve c a ?amt"
  let ?s = "Swap a c buy ?amt" and ?s1 = "Swap a1 c buy ?amt"
  let ?leg = "Arbitrage_swap self (recorded_coin c oc) (recorded_swapper a o2) buy t"
  have npa: "\<not> is_Print ?ap" and nps: "\<not> is_Print ?s" "\<not> is_Print ?s1" by simp_all
  from call_with_retries_run [OF npa npa R, of "''Approval Unsucessful''" oc oc t]
  obtain res1 tr1 k1 where A:
    "call_with_retries ''Approval Unsucessful'' (ext ?ap oc) (ext ?ap oc) ?R t = Some (res1, t @ tr1)"
    "filter (\<lambda>e. \<not> is_Print e) tr1 = ?ap # replicate k1 ?ap"
    "(\<exists>r. oc (t @ [?ap]) = Inr r \<and> status r = SUCCESS) \<longrightarrow> tr1 = [?ap] \<and> res1 = oc (t @ [?ap])"
    by blast
  have noswap1: "filter is_Swap tr1 = []"
    using filter_Swap_via_nonprint [OF A(2)] by simp
  define t1 where "t1 = print ''Approval Succeeded'' (t @ tr1)"
  from call_with_retries_run [OF nps R, of "''Swap Unsucessful''" o2 o1 t1]
  obtain res2 tr2 k2 where S:
    "call_with_retries ''Swap Unsucessful'' (ext ?s o2) (ext ?s1 o1) ?R t1 = Some (res2, t1 @ tr2)"
    "k2 \<le> nat ?R"
    "filter (\<lambda>e. \<not> is_Print e) tr2 = ?s # replicate k2 ?s1"
    "(\<exists>r. o2 (t1 @ [?s]) = Inr r \<and> status r \<noteq> SUCCESS) \<and> 1 \<le> ?R \<longrightarrow>
        (\<exists>rest. tr2 = [?s, Print ''Swap Unsucessful'', Print ''Retrying...'', ?s1] @ rest)"
    "(\<exists>r. o2 (t1 @ [?s]) = Inr r \<and> status r \<noteq> SUCCESS)
        \<and> (\<forall>t. \<exists>r. o1 t = Inr r \<and> status r \<noteq> SUCCESS) \<longrightarrow> k2 = nat ?R"
    by blast
  have swaps2: "filter is_Swap tr2 = ?s # replicate k2 ?s1"
    using filter_Swap_via_nonprint [OF S(3)] by simp
  define fin :: "event list" where
    "fin = (case res2 of Inl e \<Rightarrow> []
            | Inr result2 \<Rightarrow>
                if status result2 = SUCCESS then [Print ''Swap Succeeded'']
                else if status result2 = FAILURE then [Print ''Swap Processed but Failed'']
                else [Print ''Swap Not Processed''])"
  have fin_noswap: "filter is_Swap fin = []"
    by (simp add: fin_def split: sum.splits)
  have unf: "?leg =
     (case res1 of Inl e \<Rightarrow> Some (Inl e, t @ tr1)
      | Inr result \<Rightarrow>
          if status result = SUCCESS then
            Some (case res2 of Inl e \<Rightarrow> Inl e | Inr x \<Rightarrow> Inr (), t1 @ tr2 @ fin)
          else if status result = FAILURE
            then Some (Inr (), print ''Approval Processed but Failed'' (t @ tr1))
          else Some (Inr (), print ''Approval Not Processed'' (t @ tr1)))"
    using A(1) S(1) [unfolded t1_def print_def]
    by (simp add: Arbitrage_swap_def s1 recorded_coin_def recorded_swapper_def t1_def
        fin_def print_def split: sum.splits)
  show ?thesis
  proof (cases "\<exists>r. res1 = Inr r \<and> status r = SUCCESS")
    case True
    then obtain r where r: "res1 = Inr r" "status r = SUCCESS" by blast
    let ?tr = "tr1 @ [Print ''Approval Succeeded''] @ tr2 @ fin"
    have run: "?leg = Some (case res2 of Inl e \<Rightarrow> Inl e | Inr x \<Rightarrow> Inr (), t @ ?tr)"
      using unf r by (simp add: t1_def print_def)
    have sw: "filter is_Swap ?tr = ?s # replicate k2 ?s1"
      using noswap1 swaps2 fin_noswap by simp
    have tie: "(\<exists>r. oc (t @ [?ap]) = Inr r \<and> status r = SUCCESS) \<longrightarrow>
          filter is_Swap ?tr = ?s # replicate k2 ?s1
          \<and> ((\<exists>r. o2 (t @ [?ap, Print ''Approval Succeeded'', ?s]) = Inr r
                   \<and> status r \<noteq> SUCCESS) \<longrightarrow>
               (1 \<le> ?R \<longrightarrow>
                  (\<exists>rest. ?tr = [?ap, Print ''Approval Succeeded'', ?s,
                                Print ''Swap Unsucessful'', Print ''Retrying...'', ?s1] @ rest))
               \<and> ((\<forall>t. \<exists>r. o1 t = Inr r \<and> status r \<noteq> SUCCESS) \<longrightarrow> k2 = nat ?R))"
    proof (intro impI conjI)
      show "filter is_Swap ?tr = ?s # replicate k2 ?s1" by (rule sw)
    next
      assume ok: "\<exists>r. oc (t @ [?ap]) = Inr r \<and> status r = SUCCESS"
        and f: "\<exists>r. o2 (t @ [?ap, Print ''Approval Succeeded'', ?s]) = Inr r \<and> status r \<noteq> SUCCESS"
        and one: "1 \<le> ?R"
      from ok A(3) have tr1: "tr1 = [?ap]" by blast
      then have t1: "t1 = t @ [?ap, Print ''Approval Succeeded'']"
        by (simp add: t1_def print_def)
      from f have "\<exists>r. o2 (t1 @ [?s]) = Inr r \<and> status r \<noteq> SUCCESS"
        by (simp add: t1)
      with S(4) one obtain rest where
        "tr2 = [?s, Print ''Swap Unsucessful'', Print ''Retrying...'', ?s1] @ rest"
        by blast
      then have "?tr = [?ap, Print ''Approval Succeeded'', ?s,
                        Print ''Swap Unsucessful'', Print ''Retrying...'', ?s1] @ (rest @ fin)"
        by (simp add: tr1)
      then show "\<exists>rest. ?tr = [?ap, Print ''Approval Succeeded'', ?s,
                        Print ''Swap Unsucessful'', Print ''Retrying...'', ?s1] @ rest"
        by blast
    next
      assume ok: "\<exists>r. oc (t @ [?ap]) = Inr r \<and> status r = SUCCESS"
        and f: "\<exists>r. o2 (t @ [?ap, Print ''Approval Succeeded'', ?s]) = Inr r \<and> status r \<noteq> SUCCESS"
        and all: "\<forall>t. \<exists>r. o1 t = Inr r \<and> status r \<noteq> SUCCESS"
      from ok A(3) have tr1: "tr1 = [?ap]" by blast
      then have t1: "t1 = t @ [?ap, Print ''Approval Succeeded'']"
        by (simp add: t1_def print_def)
      from f have "\<exists>r. o2 (t1 @ [?s]) = Inr r \<and> status r \<noteq> SUCCESS"
        by (simp add: t1)
      with S(5) all show "k2 = nat ?R" by blast
    qed
    show ?thesis
      apply (rule exI [of _ "case res2 of Inl e \<Rightarrow> Inl e | Inr x \<Rightarrow> Inr ()"],
             rule exI [of _ ?tr], rule exI [of _ k2])
      using run S(2) sw tie by blast
  next
    case False
    have "\<exists>res tr. ?leg = Some (res, t @ tr) \<and> filter is_Swap tr = []"
    proof (cases res1)
      case (Inl e)
      then show ?thesis using unf noswap1 by auto
    next
      case (Inr result)
      with False have ns: "status result \<noteq> SUCCESS" by simp
      then have "\<exists>m. ?leg = Some (Inr (), t @ tr1 @ [Print m])"
        using unf Inr by (simp add: print_def)
      then show ?thesis using noswap1 by force
    qed
    then obtain res tr where E: "?leg = Some (res, t @ tr)" "filter is_Swap tr = []" by blast
    have notok: "\<not> (\<exists>r. oc (t @ [?ap]) = Inr r \<and> status r = SUCCESS)"
    proof
      assume ok: "\<exists>r. oc (t @ [?ap]) = Inr r \<and> status r = SUCCESS"
      with A(3) have "res1 = oc (t @ [?ap])" by blast
      with ok False show False by auto
    qed
    have k0: "(0::nat) \<le> nat ?R" by simp
    show ?thesis
      apply (rule exI [of _ res], rule exI [of _ tr], rule exI [of _ 0])
      using E notok k0 by blast
  qed
qed

theorem swap_retry_via_first_swapper_witness:
  "\<exists>res tr.
     Arbitrage_swap
       \<lparr>Arbitrage.amount = 10, Arbitrage.retries = 2,
        swapper_1 = recorded_swapper ''uniswap'' (\<lambda>t. Inr \<lparr>status = FAILURE, transactionHash = ''0x0a''\<rparr>),
        swapper_2 = recorded_swapper ''curve'' (\<lambda>t. Inr \<lparr>status = FAILURE, transactionHash = ''0x0b''\<rparr>),
        coin1_1 = recorded_coin ''coin1'' (\<lambda>t. Inr \<lparr>status = SUCCESS, transactionHash = ''0x0c''\<rparr>),
        coin2_2 = recorded_coin ''coin2'' (\<lambda>t. Inr \<lparr>status = SUCCESS, transactionHash = ''0x0d''\<rparr>)\<rparr>
       (recorded_coin ''coin2'' (\<lambda>t. Inr \<lparr>status = SUCCESS, transactionHash = ''0x0d''\<rparr>))
       (recorded_swapper ''curve'' (\<lambda>t. Inr \<lparr>status = FAILURE, transactionHash = ''0x0b''\<rparr>))
       ''coin1'' [] = Some (res, tr)
     \<and> filter is_Swap tr =
         [Swap ''curve'' ''coin2'' ''coin1'' 10,
          Swap ''uniswap'' ''coin2'' ''coin1'' 10,
          Swap ''uniswap'' ''coin2'' ''coin1'' 10]
     \<and> take 6 tr =
         [Approve ''coin2'' ''curve'' 10, Print ''Approval Succeeded'',
          Swap ''curve'' ''coin2'' ''coin1'' 10,
          Print ''Swap Unsucessful'', Print ''Retrying...'',
          Swap ''uniswap'' ''coin2'' ''coin1'' 10]"
proof -
  let ?self = "\<lparr>Arbitrage.amount = 10, Arbitrage.retries = 2,
        swapper_1 = recorded_swapper ''uniswap'' (\<lambda>t. Inr \<lparr>status = FAILURE, transactionHash = ''0x0a''\<rparr>),
        swapper_2 = recorded_swapper ''curve'' (\<lambda>t. Inr \<lparr>status = FAILURE, transactionHash = ''0x0b''\<rparr>),
        coin1_1 = recorded_coin ''coin1'' (\<lambda>t. Inr \<lparr>status = SUCCESS, transactionHash = ''0x0c''\<rparr>),
        coin2_2 = recorded_coin ''coin2'' (\<lambda>t. Inr \<lparr>status = SUCCESS, transactionHash = ''0x0d''\<rparr>)\<rparr>"
  have R: "0 \<le> Arbitrage.retries ?self" by simp
  have s1: "swapper_1 ?self = recorded_swapper ''uniswap''
      (\<lambda>t. Inr \<lparr>status = FAILURE, transactionHash = ''0x0a''\<rparr>)" by simp
  from swap_retry_via_first_swapper [OF R s1,
      where c = "''coin2''" and a = "''curve''" and buy = "''coin1''" and t = "[]"
        and oc = "\<lambda>t. Inr \<lparr>status = SUCCESS, transactionHash = ''0x0d''\<rparr>"
        and ?o2.0 = "\<lambda>t. Inr \<lparr>status = FAILURE, transactionHash = ''0x0b''\<rparr>"]
  obtain res tr k where W:
    "Arbitrage_swap ?self
       (recorded_coin ''coin2'' (\<lambda>t. Inr \<lparr>status = SUCCESS, transactionHash = ''0x0d''\<rparr>))
       (recorded_swapper ''curve'' (\<lambda>t. Inr \<lparr>status = FAILURE, transactionHash = ''0x0b''\<rparr>))
       ''coin1'' [] = Some (res, tr)"
    "filter is_Swap tr = Swap ''curve'' ''coin2'' ''coin1'' 10
            # replicate k (Swap ''uniswap'' ''coin2'' ''coin1'' 10)"
    "\<exists>rest. tr = [Approve ''coin2'' ''curve'' 10, Print ''Approval Succeeded'',
          Swap ''curve'' ''coin2'' ''coin1'' 10,
          Print ''Swap Unsucessful'', Print ''Retrying...'',
          Swap ''uniswap'' ''coin2'' ''coin1'' 10] @ rest"
    "k = nat 2"
    by (simp (no_asm_use)) blast
  from W(3) have "take 6 tr =
         [Approve ''coin2'' ''curve'' 10, Print ''Approval Succeeded'',
          Swap ''curve'' ''coin2'' ''coin1'' 10,
          Print ''Swap Unsucessful'', Print ''Retrying...'',
          Swap ''uniswap'' ''coin2'' ''coin1'' 10]"
    by auto
  moreover from W(2) W(4) have "filter is_Swap tr =
         [Swap ''curve'' ''coin2'' ''coin1'' 10,
          Swap ''uniswap'' ''coin2'' ''coin1'' 10,
          Swap ''uniswap'' ''coin2'' ''coin1'' 10]"
    by (simp add: numeral_eq_Suc)
  ultimately show ?thesis using W(1) by blast
qed

section \<open>Properties of the block watcher\<close>

lemma count_list_notin: "x \<notin> set xs \<Longrightarrow> count_list xs x = 0"
  by (induction xs) auto

lemma send_block_run:
  assumes node: "web3node self = recorded_node blocks sends"
    and R: "0 \<le> ListenAndSend.retries self"
  shows "\<exists>res tr. send_block self t = Some (res, t @ tr)
     \<and> count_list tr (Print ''Sending ETH...'') = 1
     \<and> filter is_PrintBlockNumber tr = []
     \<and> count_list tr GetBlockLatest = 0
     \<and> ((\<forall>t. \<exists>r. sends t = Inr r) \<longrightarrow> res = Inr ())
     \<and> ((\<forall>t. \<exists>r. sends t = Inr r \<and> status r = SUCCESS) \<longrightarrow>
          count_list tr (SendETH (ListenAndSend.amount self) (to_address self)) = 1)"
proof -
  let ?ev = "SendETH (ListenAndSend.amount self) (to_address self)"
  let ?t0 = "t @ [Print ''Sending ETH...'']"
  have np: "\<not> is_Print ?ev" by simp
  from call_with_retries_run [OF np np R, of "''Transaction Unsucessful''" sends sends ?t0]
  obtain resC trC k where C:
    "call_with_retries ''Transaction Unsucessful'' (ext ?ev sends) (ext ?ev sends)
        (ListenAndSend.retries self) ?t0 = Some (resC, ?t0 @ trC)"
    "set trC \<subseteq> {Print ''Transaction Unsucessful'', Print ''Retrying...'', ?ev, ?ev}"
    "(\<forall>t. \<exists>r. sends t = Inr r) \<and> (\<forall>t. \<exists>r. sends t = Inr r) \<longrightarrow> (\<exists>r. resC = Inr r)"
    "(\<exists>r. sends (?t0 @ [?ev]) = Inr r \<and> status r = SUCCESS) \<longrightarrow>
        trC = [?ev] \<and> resC = sends (?t0 @ [?ev])"
    by blast
  define fin :: "event list" where
    "fin = (case resC of Inl e \<Rightarrow> []
            | Inr result \<Rightarrow>
                if status result = SUCCESS then [Print ''Transaction Succeeded'']
                else if status result = FAILURE then [Print ''Transaction Processed but Failed'']
                else [Print ''Transaction Not Processed''])"
  define res :: "exn + unit" where "res = (case resC of Inl e \<Rightarrow> Inl e | Inr x \<Rightarrow> Inr ())"
  let ?tr = "Print ''Sending ETH...'' # trC @ fin"
  have run: "send_block self t = Some (res, t @ ?tr)"
    using C(1)
    by (simp add: send_block_def node recorded_node_def print_def fin_def res_def
        split: sum.splits)
  have c1: "count_list trC (Print ''Sending ETH...'') = 0"
    using C(2) by (intro count_list_notin) auto
  have c2: "count_list fin (Print ''Sending ETH...'') = 0"
    by (simp add: fin_def split: sum.splits)
  have snd: "count_list ?tr (Print ''Sending ETH...'') = 1"
    using c1 c2 by simp
  have p1: "filter is_PrintBlockNumber trC = []"
    using C(2) by (auto simp: filter_empty_conv)
  have p2: "filter is_PrintBlockNumber fin = []"
    by (simp add: fin_def split: sum.splits)
  have pbn: "filter is_PrintBlockNumber ?tr = []"
    using p1 p2 by simp
  have g1: "count_list trC GetBlockLatest = 0"
    using C(2) by (intro count_list_notin) auto
  have g2: "count_list fin GetBlockLatest = 0"
    by (simp add: fin_def split: sum.splits)
  have gbl: "count_list ?tr GetBlockLatest = 0"
    using g1 g2 by simp
  have nr: "(\<forall>t. \<exists>r. sends t = Inr r) \<longrightarrow> res = Inr ()"
    using C(3) by (auto simp: res_def)
  have ok: "(\<forall>t. \<exists>r. sends t = Inr r \<and> status r = SUCCESS) \<longrightarrow> count_list ?tr ?ev = 1"
  proof
    assume a: "\<forall>t. \<exists>r. sends t = Inr r \<and> status r = SUCCESS"
    then have "\<exists>r. sends (?t0 @ [?ev]) = Inr r \<and> status r = SUCCESS" by blast
    with C(4) have "trC = [?ev]" by blast
    moreover have "count_list fin ?ev = 0"
      by (simp add: fin_def split: sum.splits)
    ultimately show "count_list ?tr ?ev = 1" by simp
  qed
  show ?thesis
    apply (rule exI [of _ res], rule exI [of _ ?tr])
    using run snd pbn gbl nr ok by blast
qed

lemma shift_mod_div:
  fixes N :: int
  assumes "0 < N" "x = y + N * s"
  shows "x mod N = y mod N" "x div N = y div N + s"
  using assms by simp_all

lemma execute_loop_run:
  assumes N: "1 \<le> num_blocks self"
    and R: "0 \<le> ListenAndSend.retries self"
    and node: "web3node self = recorded_node (scripted_blocks polls) sends"
  shows "k = length polls - i \<Longrightarrow> i \<le> length polls \<Longrightarrow> count_list t GetBlockLatest = i \<Longrightarrow>
     0 \<le> b \<Longrightarrow> b < num_blocks self \<Longrightarrow>
     \<exists>res l tr. execute_loop self \<lparr>current_number = c, block_count = b\<rparr> t = Some (res, l, t @ tr)
      \<and> block_count l = (b + int (length (filter is_PrintBlockNumber tr))) mod num_blocks self
      \<and> int (count_list tr (Print ''Sending ETH...''))
           = (b + int (length (filter is_PrintBlockNumber tr))) div num_blocks self
      \<and> ((\<forall>t. \<exists>r. sends t = Inr r) \<longrightarrow>
            res = Inr ()
            \<and> length (filter is_PrintBlockNumber tr) = height_changes c (drop i polls)
            \<and> current_number l = last (c # drop i polls))
      \<and> ((\<forall>t. \<exists>r. sends t = Inr r \<and> status r = SUCCESS) \<longrightarrow>
            count_list tr (SendETH (ListenAndSend.amount self) (to_address self))
              = count_list tr (Print ''Sending ETH...''))"
proof (induction k arbitrary: i t b c)
  case 0
  let ?N = "num_blocks self"
  let ?l = "\<lparr>current_number = c, block_count = b\<rparr>"
  let ?tr = "[GetBlockLatest, Print (CHR 0x0A # ''Program interrupted. Exiting gracefully...'')]"
  from 0 have i: "i = length polls" by simp
  have poll: "scripted_blocks polls (t @ [GetBlockLatest]) = Inl KeyboardInterrupt"
    using 0 i by (simp add: scripted_blocks_def)
  have body: "loop_body self ?l t = Some (Inl KeyboardInterrupt, ?l, t @ [GetBlockLatest])"
    using poll by (simp add: loop_body_def node recorded_node_def ext_def)
  have run: "execute_loop self ?l t = Some (Inr (), ?l, t @ ?tr)"
    by (subst execute_loop.simps) (simp add: body print_def)
  have a: "block_count ?l = (b + int (length (filter is_PrintBlockNumber ?tr))) mod ?N"
    using 0 by simp
  have d: "int (count_list ?tr (Print ''Sending ETH...''))
           = (b + int (length (filter is_PrintBlockNumber ?tr))) div ?N"
    using 0 by simp
  have h: "length (filter is_PrintBlockNumber ?tr) = height_changes c (drop i polls)
            \<and> current_number ?l = last (c # drop i polls)"
    using i by simp
  have s: "count_list ?tr (SendETH (ListenAndSend.amount self) (to_address self))
              = count_list ?tr (Print ''Sending ETH...'')"
    by simp
  show ?case
    apply (rule exI [of _ "Inr ()"], rule exI [of _ ?l], rule exI [of _ ?tr])
    using run a d h s by blast
next
  case (Suc k)
  let ?N = "num_blocks self"
  let ?ev = "SendETH (ListenAndSend.amount self) (to_address self)"
  let ?l = "\<lparr>current_number = c, block_count = b\<rparr>"
  from Suc.prems have i: "i < length polls" by simp
  let ?p = "polls ! i"
  have N0: "0 < ?N" using N by simp
  have dr: "drop i polls = ?p # drop (Suc i) polls"
    using i by (simp add: Cons_nth_drop_Suc)
  have poll: "scripted_blocks polls (t @ [GetBlockLatest]) = Inr ?p"
    using Suc.prems i by (simp add: scripted_blocks_def)
  have k: "k = length polls - Suc i" and le: "Suc i \<le> length polls"
    using Suc.prems by simp_all
  have cont: "\<exists>res l tr. execute_loop self ?l t = Some (res, l, t @ tr)
      \<and> block_count l = (b + int (length (filter is_PrintBlockNumber tr))) mod ?N
      \<and> int (count_list tr (Print ''Sending ETH...''))
           = (b + int (length (filter is_PrintBlockNumber tr))) div ?N
      \<and> ((\<forall>t. \<exists>r. sends t = Inr r) \<longrightarrow>
            res = Inr ()
            \<and> length (filter is_PrintBlockNumber tr) = height_changes c (drop i polls)
            \<and> current_number l = last (c # drop i polls))
      \<and> ((\<forall>t. \<exists>r. sends t = Inr r \<and> status r = SUCCESS) \<longrightarrow>
            count_list tr ?ev = count_list tr (Print ''Sending ETH...''))"
    if step: "execute_loop self ?l t
                = execute_loop self \<lparr>current_number = c', block_count = b'\<rparr> (t @ u)"
      and g: "count_list u GetBlockLatest = 1"
      and b': "0 \<le> b'" "b' < ?N"
      and md: "b + int (length (filter is_PrintBlockNumber u))
                 = b' + ?N * int (count_list u (Print ''Sending ETH...''))"
      and hc: "(\<forall>t. \<exists>r. sends t = Inr r) \<longrightarrow>
                 height_changes c (drop i polls)
                   = length (filter is_PrintBlockNumber u) + height_changes c' (drop (Suc i) polls)
                 \<and> last (c # drop i polls) = last (c' # drop (Suc i) polls)"
      and sc: "(\<forall>t. \<exists>r. sends t = Inr r \<and> status r = SUCCESS) \<longrightarrow>
                 count_list u ?ev = count_list u (Print ''Sending ETH...'')"
    for c' b' u
  proof -
    have cnt: "count_list (t @ u) GetBlockLatest = Suc i"
      using Suc.prems(3) g by simp
    from Suc.IH [OF k le cnt b', of c']
    obtain res l tr where IH:
      "execute_loop self \<lparr>current_number = c', block_count = b'\<rparr> (t @ u) = Some (res, l, (t @ u) @ tr)"
      "block_count l = (b' + int (length (filter is_PrintBlockNumber tr))) mod ?N"
      "int (count_list tr (Print ''Sending ETH...''))
           = (b' + int (length (filter is_PrintBlockNumber tr))) div ?N"
      "(\<forall>t. \<exists>r. sends t = Inr r) \<longrightarrow>
            res = Inr ()
            \<and> length (filter is_PrintBlockNumber tr) = height_changes c' (drop (Suc i) polls)
            \<and> current_number l = last (c' # drop (Suc i) polls)"
      "(\<forall>t. \<exists>r. sends t = Inr r \<and> status r = SUCCESS) \<longrightarrow>
            count_list tr ?ev = count_list tr (Print ''Sending ETH...'')"
      by blast
    have run: "execute_loop self ?l t = Some (res, l, t @ (u @ tr))"
      using step IH(1) by simp
    have eq: "b + int (length (filter is_PrintBlockNumber (u @ tr)))
        = (b' + int (length (filter is_PrintBlockNumber tr)))
          + ?N * int (count_list u (Print ''Sending ETH...''))"
      using md by simp
    have a: "block_count l = (b + int (length (filter is_PrintBlockNumber (u @ tr)))) mod ?N"
      using shift_mod_div(1) [OF N0 eq] IH(2) by simp
    have d: "int (count_list (u @ tr) (Print ''Sending ETH...''))
           = (b + int (length (filter is_PrintBlockNumber (u @ tr)))) div ?N"
      using shift_mod_div(2) [OF N0 eq] IH(3) by simp
    have h: "(\<forall>t. \<exists>r. sends t = Inr r) \<longrightarrow>
            res = Inr ()
            \<and> length (filter is_PrintBlockNumber (u @ tr)) = height_changes c (drop i polls)
            \<and> current_number l = last (c # drop i polls)"
      using IH(4) hc by simp
    have s: "(\<forall>t. \<exists>r. sends t = Inr r \<and> status r = SUCCESS) \<longrightarrow>
            count_list (u @ tr) ?ev = count_list (u @ tr) (Print ''Sending ETH...'')"
      using IH(5) sc by simp
    show ?thesis
      apply (rule exI [of _ res], rule exI [of _ l], rule exI [of _ "u @ tr"])
      using run a d h s by blast
  qed
  show ?case
  proof (cases "?p = c")
    case True
    have body: "loop_body self ?l t = Some (Inr (), ?l, t @ [GetBlockLatest])"
      using poll True by (simp add: loop_body_def node recorded_node_def ext_def)
    have step: "execute_loop self ?l t = execute_loop self ?l (t @ [GetBlockLatest])"
      by (subst execute_loop.simps) (simp add: body)
    show ?thesis
      using cont [of c b "[GetBlockLatest]", OF step] Suc.prems(4) Suc.prems(5) True
      by (simp add: dr)
  next
    case False
    let ?t2 = "t @ [GetBlockLatest, PrintBlockNumber ?p]"
    have hcF: "height_changes c (drop i polls) = Suc (height_changes ?p (drop (Suc i) polls))"
      "last (c # drop i polls) = last (?p # drop (Suc i) polls)"
      using False by (simp_all add: dr)
    show ?thesis
    proof (cases "(b + 1) mod ?N = 0")
      case nowrap: False
      have lt: "b + 1 < ?N"
        using nowrap Suc.prems(4) Suc.prems(5) by (cases "b + 1 = ?N") auto
      then have md: "(b + 1) mod ?N = b + 1"
        using Suc.prems(4) by simp
      have body: "loop_body self ?l t =
          Some (Inr (), \<lparr>current_number = ?p, block_count = b + 1\<rparr>, ?t2)"
        using poll False nowrap N md
        by (simp add: loop_body_def node recorded_node_def ext_def py_mod_def Let_def)
      have step: "execute_loop self ?l t =
          execute_loop self \<lparr>current_number = ?p, block_count = b + 1\<rparr>
            (t @ [GetBlockLatest, PrintBlockNumber ?p])"
        by (subst execute_loop.simps) (simp add: body)
      show ?thesis
        using cont [of ?p "b + 1" "[GetBlockLatest, PrintBlockNumber ?p]", OF step]
          Suc.prems(4) lt hcF
        by simp
    next
      case wrap: True
      have bN: "b + 1 = ?N"
        using wrap Suc.prems(4) Suc.prems(5) by (cases "b + 1 < ?N") auto
      let ?l2 = "\<lparr>current_number = ?p, block_count = 0\<rparr>"
      from send_block_run [OF node R, of ?t2]
      obtain resS trS where S:
        "send_block self ?t2 = Some (resS, ?t2 @ trS)"
        "count_list trS (Print ''Sending ETH...'') = 1"
        "filter is_PrintBlockNumber trS = []"
        "count_list trS GetBlockLatest = 0"
        "(\<forall>t. \<exists>r. sends t = Inr r) \<longrightarrow> resS = Inr ()"
        "(\<forall>t. \<exists>r. sends t = Inr r \<and> status r = SUCCESS) \<longrightarrow> count_list trS ?ev = 1"
        by blast
      let ?u = "[GetBlockLatest, PrintBlockNumber ?p] @ trS"
      have body: "loop_body self ?l t =
          Some (case resS of Inl e \<Rightarrow> Inl e | Inr x \<Rightarrow> Inr (), ?l2, t @ ?u)"
        using poll False wrap N S(1)
        by (simp add: loop_body_def node recorded_node_def ext_def py_mod_def Let_def
            split: sum.splits)
      have mdu: "b + int (length (filter is_PrintBlockNumber ?u))
                 = 0 + ?N * int (count_list ?u (Print ''Sending ETH...''))"
        using S(2) S(3) bN by simp
      show ?thesis
      proof (cases resS)
        case (Inr x)
        have step: "execute_loop self ?l t = execute_loop self ?l2 (t @ ?u)"
          by (subst execute_loop.simps) (simp add: body Inr)
        have g: "count_list ?u GetBlockLatest = 1" using S(4) by simp
        have z: "(0::int) \<le> 0" "0 < ?N" using N0 by simp_all
        have hc: "(\<forall>t. \<exists>r. sends t = Inr r) \<longrightarrow>
                 height_changes c (drop i polls)
                   = length (filter is_PrintBlockNumber ?u) + height_changes ?p (drop (Suc i) polls)
                 \<and> last (c # drop i polls) = last (?p # drop (Suc i) polls)"
          using hcF S(3) by simp
        have sc: "(\<forall>t. \<exists>r. sends t = Inr r \<and> status r = SUCCESS) \<longrightarrow>
                 count_list ?u ?ev = count_list ?u (Print ''Sending ETH...'')"
          using S(6) S(2) by simp
        show ?thesis by (rule cont [OF step g z mdu hc sc])
      next
        case (Inl e)
        have nr: "\<not> (\<forall>t. \<exists>r. sends t = Inr r)"
          using S(5) Inl by auto
        then have ns: "\<not> (\<forall>t. \<exists>r. sends t = Inr r \<and> status r = SUCCESS)" by blast
        show ?thesis
        proof (cases "e = HTTPError \<or> e = TimeExhausted")
          case True
          let ?u' = "?u @ [PrintRequestError e, Print ''Retrying...'', Sleep 3]"
          have step: "execute_loop self ?l t = execute_loop self ?l2 (t @ ?u')"
            using True by (subst execute_loop.simps) (auto simp: body Inl)
          have g: "count_list ?u' GetBlockLatest = 1" using S(4) by simp
          have z: "(0::int) \<le> 0" "0 < ?N" using N0 by simp_all
          have mdu': "b + int (length (filter is_PrintBlockNumber ?u'))
                 = 0 + ?N * int (count_list ?u' (Print ''Sending ETH...''))"
            using S(2) S(3) bN by simp
          have hc: "(\<forall>t. \<exists>r. sends t = Inr r) \<longrightarrow>
                 height_changes c (drop i polls)
                   = length (filter is_PrintBlockNumber ?u') + height_changes ?p (drop (Suc i) polls)
                 \<and> last (c # drop i polls) = last (?p # drop (Suc i) polls)"
            using nr by blast
          have sc: "(\<forall>t. \<exists>r. sends t = Inr r \<and> status r = SUCCESS) \<longrightarrow>
                 count_list ?u' ?ev = count_list ?u' (Print ''Sending ETH...'')"
            using ns by blast
          show ?thesis by (rule cont [OF step g z mdu' hc sc])
        next
          case False
          define fin :: "event list" where
            "fin = (if e = KeyboardInterrupt
                    then [Print (CHR 0x0A # ''Program interrupted. Exiting gracefully...'')]
                    else [])"
          define res :: "exn + unit" where
            "res = (if e = KeyboardInterrupt then Inr () else Inl e)"
          have run: "execute_loop self ?l t = Some (res, ?l2, t @ (?u @ fin))"
            using False
            by (subst execute_loop.simps) (simp add: body Inl print_def fin_def res_def)
          have pf: "filter is_PrintBlockNumber fin = []"
            "count_list fin (Print ''Sending ETH...'') = 0"
            by (simp_all add: fin_def)
          have eq: "b + int (length (filter is_PrintBlockNumber (?u @ fin)))
              = 0 + ?N * 1"
            using S(3) bN pf by simp
          have a: "block_count ?l2 = (b + int (length (filter is_PrintBlockNumber (?u @ fin)))) mod ?N"
            using shift_mod_div(1) [OF N0 eq] by simp
          have d: "int (count_list (?u @ fin) (Print ''Sending ETH...''))
               = (b + int (length (filter is_PrintBlockNumber (?u @ fin)))) div ?N"
            using shift_mod_div(2) [OF N0 eq] S(2) pf by simp
          show ?thesis
            apply (rule exI [of _ res], rule exI [of _ ?l2], rule exI [of _ "?u @ fin"])
            using run a d nr ns by blast
        qed
      qed
    qed
  qed
qed

text \<open>
  C8. With \<open>num_blocks \<ge> 1\<close> and \<open>retries \<ge> 0\<close>, for every sequence of polled heights
  and whatever the transfers answer, the loop started with the counter at 0 returns,
  and at its end the counter is the number of height changes it has observed (one
  line \<^verbatim>\<open>Block number: n\<close> each) modulo \<open>num_blocks\<close>, and the transfer has been
  started (the line \<^verbatim>\<open>Sending ETH...\<close>) as many times as \<open>num_blocks\<close> divides into
  that number: once per wrap of the counter to 0, and, the statement holding for every
  prefix of the polls, at the wrap. When no transfer raises, the loop runs to the
  interrupt and has observed every height change of the polls; a poll that repeats the
  height changes nothing. When every transfer succeeds, \<^verbatim>\<open>send_ETH\<close> is called once
  per started transfer. With \<open>num_blocks = 3\<close> and three changes: one transfer
  started, counter back at 0.
\<close>

theorem transfer_every_num_blocks:
  assumes "1 \<le> num_blocks self"
    and "0 \<le> ListenAndSend.retries self"
    and "web3node self = recorded_node (scripted_blocks polls) sends"
  shows "\<exists>res l tr. execute_loop self \<lparr>current_number = c, block_count = 0\<rparr> [] = Some (res, l, tr)
      \<and> block_count l = int (length (filter is_PrintBlockNumber tr)) mod num_blocks self
      \<and> int (count_list tr (Print ''Sending ETH...''))
           = int (length (filter is_PrintBlockNumber tr)) div num_blocks self
      \<and> ((\<forall>t. \<exists>r. sends t = Inr r) \<longrightarrow>
            res = Inr ()
            \<and> length (filter is_PrintBlockNumber tr) = height_changes c polls
            \<and> current_number l = last (c # polls))
      \<and> ((\<forall>t. \<exists>r. sends t = Inr r \<and> status r = SUCCESS) \<longrightarrow>
            count_list tr (SendETH (ListenAndSend.amount self) (to_address self))
              = count_list tr (Print ''Sending ETH...''))"
  using execute_loop_run [OF assms, of "length polls" 0 "[]" 0 c] assms(1) by simp

theorem transfer_every_num_blocks_witness:
  "(\<exists>tr. execute_loop
        \<lparr>ListenAndSend.amount = 1, num_blocks = 3, ListenAndSend.retries = 5, to_address = ''0xb0b'',
         web3node = recorded_node (scripted_blocks [100, 101, 101, 102, 103])
            (\<lambda>t. Inr \<lparr>status = FAILURE, transactionHash = ''0x01''\<rparr>)\<rparr>
        \<lparr>current_number = 100, block_count = 0\<rparr> [] =
      Some (Inr (), \<lparr>current_number = 103, block_count = 0\<rparr>, tr)
    \<and> length (filter is_PrintBlockNumber tr) = 3
    \<and> count_list tr (Print ''Sending ETH...'') = 1)
   \<and> (\<exists>tr. execute_loop
        \<lparr>ListenAndSend.amount = 1, num_blocks = 3, ListenAndSend.retries = 5, to_address = ''0xb0b'',
         web3node = recorded_node (scripted_blocks [100, 101, 101, 102, 103])
            (\<lambda>t. Inr \<lparr>status = SUCCESS, transactionHash = ''0x01''\<rparr>)\<rparr>
        \<lparr>current_number = 100, block_count = 0\<rparr> [] =
      Some (Inr (), \<lparr>current_number = 103, block_count = 0\<rparr>, tr)
    \<and> count_list tr (Print ''Sending ETH...'') = 1
    \<and> count_list tr (SendETH 1 ''0xb0b'') = 1)"
proof -
  let ?polls = "[100, 101, 101, 102, 103] :: int list"
  let ?fail = "\<lambda>t::trace. Inr \<lparr>status = FAILURE, transactionHash = ''0x01''\<rparr> :: exn + TransactionResult"
  let ?ok = "\<lambda>t::trace. Inr \<lparr>status = SUCCESS, transactionHash = ''0x01''\<rparr> :: exn + TransactionResult"
  let ?self = "\<lambda>sends. \<lparr>ListenAndSend.amount = 1, num_blocks = 3, ListenAndSend.retries = 5,
         to_address = ''0xb0b'', web3node = recorded_node (scripted_blocks ?polls) sends\<rparr>"
  have hc: "height_changes 100 ?polls = 3" by simp
  have h: "1 \<le> num_blocks (?self s)" "0 \<le> ListenAndSend.retries (?self s)"
    "web3node (?self s) = recorded_node (scripted_blocks ?polls) s" for s
    by simp_all
  from transfer_every_num_blocks [OF h, of ?fail 100]
  obtain res l tr where F:
    "execute_loop (?self ?fail) \<lparr>current_number = 100, block_count = 0\<rparr> [] = Some (res, l, tr)"
    "block_count l = int (length (filter is_PrintBlockNumber tr)) mod 3"
    "int (count_list tr (Print ''Sending ETH...'')) = int (length (filter is_PrintBlockNumber tr)) div 3"
    "res = Inr ()" "length (filter is_PrintBlockNumber tr) = 3" "current_number l = 103"
    unfolding hc by auto
  have lF: "l = \<lparr>current_number = 103, block_count = 0\<rparr>"
    using F(2) F(5) F(6) by (cases l) simp
  have sF: "count_list tr (Print ''Sending ETH...'') = 1"
    using F(3) F(5) by simp
  from transfer_every_num_blocks [OF h, of ?ok 100]
  obtain res' l' tr' where G:
    "execute_loop (?self ?ok) \<lparr>current_number = 100, block_count = 0\<rparr> [] = Some (res', l', tr')"
    "block_count l' = int (length (filter is_PrintBlockNumber tr')) mod 3"
    "int (count_list tr' (Print ''Sending ETH...'')) = int (length (filter is_PrintBlockNumber tr')) div 3"
    "res' = Inr ()" "length (filter is_PrintBlockNumber tr') = 3" "current_number l' = 103"
    "count_list tr' (SendETH 1 ''0xb0b'') = count_list tr' (Print ''Sending ETH...'')"
    unfolding hc by auto
  have lG: "l' = \<lparr>current_number = 103, block_count = 0\<rparr>"
    using G(2) G(5) G(6) by (cases l') simp
  have sG: "count_list tr' (Print ''Sending ETH...'') = 1"
    using G(3) G(5) by simp
  show ?thesis
    using F(1) F(4) F(5) lF sF G(1) G(4) G(7) lG sG by auto
qed

text \<open>
  With \<open>num_blocks = 0\<close> the first observed height change raises
  \<^verbatim>\<open>ZeroDivisionError\<close>, which neither handler of \<^verbatim>\<open>execute\<close> catches.
\<close>

lemma zero_num_blocks_raises:
  assumes "num_blocks self = 0"
    and "web3node self = recorded_node blocks sends"
    and "blocks (t @ [GetBlockLatest]) = Inr p" and "p \<noteq> current_number l"
  shows "execute_loop self l t =
     Some (Inl ZeroDivisionError, l\<lparr>current_number := p\<rparr>, t @ [GetBlockLatest, PrintBlockNumber p])"
  using assms
  by (subst execute_loop.simps)
     (simp add: loop_body_def recorded_node_def ext_def py_mod_def Let_def)

text \<open>
  C10. The validator of \<^verbatim>\<open>num_blocks\<close> accepts exactly the non-negative values, 0
  included; for an accepted value the counter update \<^verbatim>\<open>(block_count + 1) % num_blocks\<close>
  has a value exactly when \<open>num_blocks \<ge> 1\<close>; with the accepted value 0 the loop
  raises \<^verbatim>\<open>ZeroDivisionError\<close> at the first height change it observes, and the
  exception leaves \<^verbatim>\<open>execute\<close>.
\<close>

theorem num_blocks_zero_accepted:
  "(validate_num_blocks n = Inr n \<longleftrightarrow> 0 \<le> n) \<and>
   (validate_num_blocks n = Inr n \<longrightarrow> ((\<exists>v. py_mod (b + 1) n = Inr v) \<longleftrightarrow> 1 \<le> n)) \<and>
   (validate_num_blocks (num_blocks self) = Inr (num_blocks self) \<and> num_blocks self = 0
      \<and> web3node self = recorded_node blocks sends
      \<and> blocks (t @ [GetBlockLatest]) = Inr p \<and> p \<noteq> current_number l \<longrightarrow>
    execute_loop self l t =
      Some (Inl ZeroDivisionError, l\<lparr>current_number := p\<rparr>,
            t @ [GetBlockLatest, PrintBlockNumber p]))"
  using zero_num_blocks_raises [of self blocks sends t p l]
  by (auto simp: validate_num_blocks_def py_mod_def)

theorem num_blocks_zero_accepted_witness:
  "validate_num_blocks 0 = Inr 0 \<and> py_mod (0 + 1) 0 = Inl ZeroDivisionError
   \<and> \<not> (\<exists>v. py_mod (0 + 1) 0 = Inr v)
   \<and> execute_loop
        \<lparr>ListenAndSend.amount = 1, num_blocks = 0, ListenAndSend.retries = 5,
         to_address = ''0xb0b'',
         web3node = recorded_node (scripted_blocks [101])
            (\<lambda>t. Inr \<lparr>status = SUCCESS, transactionHash = ''0x01''\<rparr>)\<rparr>
        \<lparr>current_number = 100, block_count = 0\<rparr> []
      = Some (Inl ZeroDivisionError, \<lparr>current_number = 101, block_count = 0\<rparr>,
              [GetBlockLatest, PrintBlockNumber 101])"
  using num_blocks_zero_accepted
    [where n = 0 and b = 0 and t = "[]" and p = 101
       and l = "\<lparr>current_number = 100, block_count = 0\<rparr>"
       and blocks = "scripted_blocks [101]"
       and sends = "\<lambda>t. Inr \<lparr>status = SUCCESS, transactionHash = ''0x01''\<rparr>"
       and self = "\<lparr>ListenAndSend.amount = 1, num_blocks = 0, ListenAndSend.retries = 5,
         to_address = ''0xb0b'',
         web3node = recorded_node (scripted_blocks [101])
            (\<lambda>t. Inr \<lparr>status = SUCCESS, transactionHash = ''0x01''\<rparr>)\<rparr>"]
  by (simp add: py_mod_def validate_num_blocks_def scripted_blocks_def)


section \<open>The legs of the arbitrage and each other's objects\<close>

text \<open>
  A leg whose approval ends with a status other than \<open>SUCCESS\<close> reports it and returns:
  nothing is called after the approval, for any coin and swapper objects.
\<close>

lemma failed_approval_returns_without_swap:
  assumes "call_with_retries ''Approval Unsucessful''
             (approve sell_coin (address swapper) (Arbitrage.amount self))
             (approve sell_coin (address swapper) (Arbitrage.amount self))
             (Arbitrage.retries self) t = Some (Inr result, t1)"
    and "status result \<noteq> SUCCESS"
  shows "Arbitrage_swap self sell_coin swapper buy_coin_address t =
     Some (Inr (), print (if status result = FAILURE then ''Approval Processed but Failed''
                          else ''Approval Not Processed'') t1)"
  using assms by (simp add: Arbitrage_swap_def)

text \<open>
  C4. The claim has every leg keep to its own objects. The second leg of
  \<^verbatim>\<open>Arbitrage.execute\<close> is \<^verbatim>\<open>_swap(self._coin2_2, self._swapper_2, COIN_1_ADDRESS_2)\<close>;
  run with a successful approval, a swap that the chain processes and fails, and one
  retry, its retried swap is a call on \<^verbatim>\<open>self._swapper_1\<close>, the swapper of the first
  leg (here \<open>uniswap\<close>), not on its own (\<open>curve\<close>).
\<close>

theorem leg_2_retries_on_swapper_1:
  "Arbitrage_swap
     \<lparr>Arbitrage.amount = 10, Arbitrage.retries = 1,
      swapper_1 = recorded_swapper ''uniswap'' (\<lambda>t. Inr \<lparr>status = FAILURE, transactionHash = ''0x0a''\<rparr>),
      swapper_2 = recorded_swapper ''curve'' (\<lambda>t. Inr \<lparr>status = FAILURE, transactionHash = ''0x0b''\<rparr>),
      coin1_1 = recorded_coin ''coin1_1'' (\<lambda>t. Inr \<lparr>status = SUCCESS, transactionHash = ''0x0c''\<rparr>),
      coin2_2 = recorded_coin ''coin2_2'' (\<lambda>t. Inr \<lparr>status = SUCCESS, transactionHash = ''0x0d''\<rparr>)\<rparr>
     (recorded_coin ''coin2_2'' (\<lambda>t. Inr \<lparr>status = SUCCESS, transactionHash = ''0x0d''\<rparr>))
     (recorded_swapper ''curve'' (\<lambda>t. Inr \<lparr>status = FAILURE, transactionHash = ''0x0b''\<rparr>))
     ''coin1_2'' []
   = Some (Inr (),
       [Approve ''coin2_2'' ''curve'' 10,
        Print ''Approval Succeeded'',
        Swap ''curve'' ''coin2_2'' ''coin1_2'' 10,
        Print ''Swap Unsucessful'',
        Print ''Retrying...'',
        Swap ''uniswap'' ''coin2_2'' ''coin1_2'' 10,
        Print ''Swap Processed but Failed''])"
  by (simp add: Arbitrage_swap_def call_with_retries_def recorded_coin_def recorded_swapper_def
      ext_def print_def retry_while.simps)


section \<open>Properties of \<^verbatim>\<open>web3node.py\<close>\<close>

text \<open>
  A receipt with status 1 gives \<open>SUCCESS\<close>, with status 0 \<open>FAILURE\<close>. An exception of
  the wait, whichever it is, reaches the handler, whose tuple holds the module
  \<^verbatim>\<open>requests.exceptions\<close>: \<^verbatim>\<open>TypeError\<close> is raised.
\<close>

lemma verify_transaction_receipt:
  assumes "wait_for_transaction_receipt web3 (t @ [WaitForReceipt h timeout]) = Inr r"
  shows "receipt_status r = 1 \<Longrightarrow>
           verify_transaction web3 h timeout t = (Inr SUCCESS, t @ [WaitForReceipt h timeout])"
    and "receipt_status r = 0 \<Longrightarrow>
           verify_transaction web3 h timeout t = (Inr FAILURE, t @ [WaitForReceipt h timeout])"
  using assms
  by (simp_all add: verify_transaction_def try_except_def io_bind_def ext_def TransactionStatus_of_def)

lemma verify_transaction_raises:
  assumes "wait_for_transaction_receipt web3 (t @ [WaitForReceipt h timeout]) = Inl e"
  shows "verify_transaction web3 h timeout t = (Inl TypeError, t @ [WaitForReceipt h timeout])"
  using assms
  by (simp add: verify_transaction_def try_except_def io_bind_def ext_def except_clause_def)

text \<open>
  C2. The claim has \<^verbatim>\<open>verify_transaction\<close> return the unverified outcome, and never
  raise, when the wait for the receipt times out or fails. With a wait that raises
  \<^verbatim>\<open>TimeExhausted\<close>, on any client, hash and timeout, \<^verbatim>\<open>verify_transaction\<close> raises
  \<^verbatim>\<open>TypeError\<close> and returns nothing.
\<close>

theorem verify_transaction_timeout_raises:
  "verify_transaction (web3\<lparr>wait_for_transaction_receipt := \<lambda>t. Inl TimeExhausted\<rparr>) h timeout t
     = (Inl TypeError, t @ [WaitForReceipt h timeout])"
  by (simp add: verify_transaction_def try_except_def io_bind_def ext_def except_clause_def)

lemma get_gas_fees_value:
  assumes "get_block web3 (t @ [GetBlockLatest]) = Inr blk"
    and "baseFeePerGas blk = Some base_fee"
    and "max_priority_fee web3 (t @ [GetBlockLatest, MaxPriorityFee]) = Inr priority"
  shows "get_gas_fees web3 t =
     (Inr \<lparr>GasFees.maxPriorityFeePerGas = priority, GasFees.maxFeePerGas = 2 * base_fee + priority\<rparr>,
      t @ [GetBlockLatest, MaxPriorityFee])"
  using assms by (simp add: get_gas_fees_def io_bind_def ext_def io_return_def)

lemma map_of_setitem: "map_of (setitem d k v) = (map_of d)(k \<mapsto> v)"
  by (induction d) auto

lemma fill_gas_fees_value:
  assumes "get_block web3 (t @ [GetBlockLatest]) = Inr blk"
    and "baseFeePerGas blk = Some base_fee"
    and "max_priority_fee web3 (t @ [GetBlockLatest, MaxPriorityFee]) = Inr priority"
  shows "\<exists>p'. fill_gas_fees web3 p t =
       (Inr p', t @ (if contains p ''maxFeePerGas'' \<and> contains p ''maxPriorityFeePerGas''
                     then [] else [GetBlockLatest, MaxPriorityFee]))
     \<and> map_of p' = (\<lambda>k. if contains p k then map_of p k
                          else if k = ''maxFeePerGas'' then Some (PInt (2 * base_fee + priority))
                          else if k = ''maxPriorityFeePerGas'' then Some (PInt priority)
                          else None)"
proof (cases "contains p ''maxFeePerGas'' \<and> contains p ''maxPriorityFeePerGas''")
  case True
  have "map_of p = (\<lambda>k. if contains p k then map_of p k
                          else if k = ''maxFeePerGas'' then Some (PInt (2 * base_fee + priority))
                          else if k = ''maxPriorityFeePerGas'' then Some (PInt priority)
                          else None)"
    using True by (auto simp: contains_def fun_eq_iff)
  then show ?thesis using True by (simp add: fill_gas_fees_def io_return_def)
next
  case False
  let ?p1 = "if \<not> contains p ''maxFeePerGas''
             then setitem p ''maxFeePerGas'' (PInt (2 * base_fee + priority)) else p"
  let ?p2 = "if \<not> contains ?p1 ''maxPriorityFeePerGas''
             then setitem ?p1 ''maxPriorityFeePerGas'' (PInt priority) else ?p1"
  have run: "fill_gas_fees web3 p t = (Inr ?p2, t @ [GetBlockLatest, MaxPriorityFee])"
    using False get_gas_fees_value [OF assms]
    by (simp add: fill_gas_fees_def io_bind_def io_return_def Let_def)
  have "map_of ?p2 = (\<lambda>k. if contains p k then map_of p k
                          else if k = ''maxFeePerGas'' then Some (PInt (2 * base_fee + priority))
                          else if k = ''maxPriorityFeePerGas'' then Some (PInt priority)
                          else None)"
    using False by (auto simp: contains_def fun_eq_iff map_of_setitem)
  then show ?thesis using run False by simp
qed


text \<open>
  C9. When the chain answers the latest block with base fee \<open>base_fee\<close> and the
  priority-fee query with \<open>priority\<close>, \<^verbatim>\<open>get_gas_fees\<close> returns \<open>priority\<close> and
  \<open>maxFeePerGas = 2 * base_fee + priority\<close>. The fee step of
  \<^verbatim>\<open>build_transaction_data\<close> computes the pair (one block query, one priority-fee
  query) in each call where a fee field is missing, makes no query when both are
  given, and a fee field that is given keeps its value.
\<close>

theorem gas_fees_formula:
  assumes "get_block web3 (t @ [GetBlockLatest]) = Inr blk"
    and "baseFeePerGas blk = Some base_fee"
    and "max_priority_fee web3 (t @ [GetBlockLatest, MaxPriorityFee]) = Inr priority"
  shows "get_gas_fees web3 t =
       (Inr \<lparr>GasFees.maxPriorityFeePerGas = priority,
              GasFees.maxFeePerGas = 2 * base_fee + priority\<rparr>,
        t @ [GetBlockLatest, MaxPriorityFee])
     \<and> (\<exists>p'. fill_gas_fees web3 p t =
            (Inr p', t @ (if contains p ''maxFeePerGas'' \<and> contains p ''maxPriorityFeePerGas''
                          then [] else [GetBlockLatest, MaxPriorityFee]))
          \<and> map_of p' ''maxFeePerGas'' =
               (if contains p ''maxFeePerGas'' then map_of p ''maxFeePerGas''
                else Some (PInt (2 * base_fee + priority)))
          \<and> map_of p' ''maxPriorityFeePerGas'' =
               (if contains p ''maxPriorityFeePerGas'' then map_of p ''maxPriorityFeePerGas''
                else Some (PInt priority)))"
proof -
  from fill_gas_fees_value [OF assms, of p]
  obtain p' where P: "fill_gas_fees web3 p t =
       (Inr p', t @ (if contains p ''maxFeePerGas'' \<and> contains p ''maxPriorityFeePerGas''
                     then [] else [GetBlockLatest, MaxPriorityFee]))"
     "map_of p' = (\<lambda>k. if contains p k then map_of p k
                          else if k = ''maxFeePerGas'' then Some (PInt (2 * base_fee + priority))
                          else if k = ''maxPriorityFeePerGas'' then Some (PInt priority)
                          else None)"
    by blast
  have "map_of p' ''maxFeePerGas'' =
               (if contains p ''maxFeePerGas'' then map_of p ''maxFeePerGas''
                else Some (PInt (2 * base_fee + priority)))"
    and "map_of p' ''maxPriorityFeePerGas'' =
               (if contains p ''maxPriorityFeePerGas'' then map_of p ''maxPriorityFeePerGas''
                else Some (PInt priority))"
    by (simp_all add: P(2))
  then show ?thesis using get_gas_fees_value [OF assms] P(1) by blast
qed

lemma fill_nonce_value:
  assumes "get_transaction_count web3 (t @ [GetTransactionCount a]) = Inr n"
  shows "\<exists>p'. fill_nonce web3 a p t =
       (Inr p', t @ (if contains p ''nonce'' then [] else [GetTransactionCount a]))
     \<and> map_of p' = (\<lambda>k. if contains p k then map_of p k
                          else if k = ''nonce'' then Some (PInt n) else None)"
proof (cases "contains p ''nonce''")
  case True
  have "map_of p = (\<lambda>k. if contains p k then map_of p k
                          else if k = ''nonce'' then Some (PInt n) else None)"
    using True by (auto simp: contains_def fun_eq_iff)
  then show ?thesis using True by (simp add: fill_nonce_def io_return_def)
next
  case False
  have "map_of (setitem p ''nonce'' (PInt n)) = (\<lambda>k. if contains p k then map_of p k
                          else if k = ''nonce'' then Some (PInt n) else None)"
    using False by (auto simp: contains_def fun_eq_iff map_of_setitem)
  then show ?thesis using False assms
    by (simp add: fill_nonce_def io_return_def io_bind_def ext_def)
qed

lemma fill_chain_id_value:
  assumes "chain_id web3 (t @ [ChainId]) = Inr c"
  shows "\<exists>p'. fill_chain_id web3 p t =
       (Inr p', t @ (if contains p ''chainId'' then [] else [ChainId]))
     \<and> map_of p' = (\<lambda>k. if contains p k then map_of p k
                          else if k = ''chainId'' then Some (PInt c) else None)"
proof (cases "contains p ''chainId''")
  case True
  have "map_of p = (\<lambda>k. if contains p k then map_of p k
                          else if k = ''chainId'' then Some (PInt c) else None)"
    using True by (auto simp: contains_def fun_eq_iff)
  then show ?thesis using True by (simp add: fill_chain_id_def io_return_def)
next
  case False
  have "map_of (setitem p ''chainId'' (PInt c)) = (\<lambda>k. if contains p k then map_of p k
                          else if k = ''chainId'' then Some (PInt c) else None)"
    using False by (auto simp: contains_def fun_eq_iff map_of_setitem)
  then show ?thesis using False assms
    by (simp add: fill_chain_id_def io_return_def io_bind_def ext_def)
qed

lemma complete_parameters_value:
  assumes tc: "\<forall>t. get_transaction_count web3 t = Inr n"
    and gb: "\<forall>t. get_block web3 t = Inr blk" and bf: "baseFeePerGas blk = Some base_fee"
    and pf: "\<forall>t. max_priority_fee web3 t = Inr priority"
    and ci: "\<forall>t. chain_id web3 t = Inr cid"
  shows "\<exists>p'. complete_parameters web3 a p t = (Inr p', t @ chain_events a p)
     \<and> map_of p' = (\<lambda>k. if contains p k then map_of p k
                          else if k = ''nonce'' then Some (PInt n)
                          else if k = ''maxFeePerGas'' then Some (PInt (2 * base_fee + priority))
                          else if k = ''maxPriorityFeePerGas'' then Some (PInt priority)
                          else if k = ''chainId'' then Some (PInt cid)
                          else None)"
proof -
  define t1 where "t1 = t @ (if contains p ''nonce'' then [] else [GetTransactionCount a])"
  define t2 where "t2 = t1 @ (if contains p ''maxFeePerGas'' \<and> contains p ''maxPriorityFeePerGas''
                     then [] else [GetBlockLatest, MaxPriorityFee])"
  define t3 where "t3 = t2 @ (if contains p ''chainId'' then [] else [ChainId])"
  have t3: "t3 = t @ chain_events a p"
    by (simp add: t3_def t2_def t1_def chain_events_def)
  from fill_nonce_value [of web3 t a n p] tc
  obtain p1 where P1: "fill_nonce web3 a p t = (Inr p1, t1)"
     "map_of p1 = (\<lambda>k. if contains p k then map_of p k
                          else if k = ''nonce'' then Some (PInt n) else None)"
    unfolding t1_def by blast
  have c1: "contains p1 k \<longleftrightarrow> contains p k \<or> k = ''nonce''" for k
    by (simp add: contains_def P1(2))
  from fill_gas_fees_value [of web3 t1 blk base_fee priority p1] gb bf pf
  obtain p2 where P2: "fill_gas_fees web3 p1 t1 =
       (Inr p2, t1 @ (if contains p1 ''maxFeePerGas'' \<and> contains p1 ''maxPriorityFeePerGas''
                     then [] else [GetBlockLatest, MaxPriorityFee]))"
     "map_of p2 = (\<lambda>k. if contains p1 k then map_of p1 k
                          else if k = ''maxFeePerGas'' then Some (PInt (2 * base_fee + priority))
                          else if k = ''maxPriorityFeePerGas'' then Some (PInt priority)
                          else None)"
    by blast
  have P2': "fill_gas_fees web3 p1 t1 = (Inr p2, t2)"
    using P2(1) by (simp add: c1 t2_def)
  have c2: "contains p2 k \<longleftrightarrow> contains p k \<or> k = ''nonce'' \<or> k = ''maxFeePerGas''
      \<or> k = ''maxPriorityFeePerGas''" for k
    by (auto simp: contains_def P2(2) P1(2))
  from fill_chain_id_value [of web3 t2 cid p2] ci
  obtain p3 where P3: "fill_chain_id web3 p2 t2 =
       (Inr p3, t2 @ (if contains p2 ''chainId'' then [] else [ChainId]))"
     "map_of p3 = (\<lambda>k. if contains p2 k then map_of p2 k
                          else if k = ''chainId'' then Some (PInt cid) else None)"
    by blast
  have P3': "fill_chain_id web3 p2 t2 = (Inr p3, t3)"
    using P3(1) by (simp add: c2 t3_def)
  have run: "complete_parameters web3 a p t = (Inr p3, t3)"
    by (simp add: complete_parameters_def io_bind_def P1(1) P2' P3')
  have "map_of p3 = (\<lambda>k. if contains p k then map_of p k
                          else if k = ''nonce'' then Some (PInt n)
                          else if k = ''maxFeePerGas'' then Some (PInt (2 * base_fee + priority))
                          else if k = ''maxPriorityFeePerGas'' then Some (PInt priority)
                          else if k = ''chainId'' then Some (PInt cid)
                          else None)"
    by (auto simp: fun_eq_iff P3(2) c2 P2(2) c1 P1(2))
  then show ?thesis using run t3 by simp
qed


lemma required_int_PInt:
  assumes "map_of p k = Some (PInt i)" "int_validator py (PInt i) = Some i"
  shows "required_field (int_validator py) p k = Some i"
  using assms by (simp add: required_field_def)

lemma to_dictionary_int_fields:
  assumes init: "TransactionData_init py p = Some td"
    and k: "k \<in> set four_fields"
    and v: "map_of p k = Some (PInt i)" "int_validator py (PInt i) = Some i"
  shows "map_of (to_dictionary td) k = Some (PInt i)"
proof -
  from init obtain n f q c where
    r: "required_field (int_validator py) p ''nonce'' = Some n"
       "required_field (int_validator py) p ''maxFeePerGas'' = Some f"
       "required_field (int_validator py) p ''maxPriorityFeePerGas'' = Some q"
       "required_field (int_validator py) p ''chainId'' = Some c"
    and td: "nonce td = n" "TransactionData.maxFeePerGas td = f"
       "TransactionData.maxPriorityFeePerGas td = q" "chainId td = c"
    by (auto simp: TransactionData_init_def split: Option.bind_splits)
  from k consider "k = ''nonce''" | "k = ''maxFeePerGas''" | "k = ''maxPriorityFeePerGas''"
    | "k = ''chainId''"
    by (auto simp: four_fields_def)
  then show ?thesis
  proof cases
    case 1
    with required_int_PInt [OF v] r(1) td(1) show ?thesis by (simp add: to_dictionary_def)
  next
    case 2
    with required_int_PInt [OF v] r(2) td(2) show ?thesis by (simp add: to_dictionary_def)
  next
    case 3
    with required_int_PInt [OF v] r(3) td(3) show ?thesis by (simp add: to_dictionary_def)
  next
    case 4
    with required_int_PInt [OF v] r(4) td(4) show ?thesis by (simp add: to_dictionary_def)
  qed
qed

text \<open>
  C5. On a chain that answers the queries, \<^verbatim>\<open>build_transaction_data\<close> asks the chain
  exactly for what is missing among nonce, fees and chain id (\<open>chain_events\<close>; the
  block and the priority fee are both read when either fee field is missing); in the
  parameters it hands to the validation every key that was given keeps its value,
  each of the four fields that was missing holds the chain's value (transaction count,
  \<open>2 * base_fee + priority\<close>, priority fee, chain id), and nothing else is added. A
  failed validation raises \<^verbatim>\<open>TransactionException\<close>; otherwise the result is the
  validated dictionary, in which an integer given or filled for one of the four
  fields is unchanged.
\<close>

theorem build_fills_missing_fields:
  assumes "\<forall>t. get_transaction_count web3 t = Inr n"
    and "\<forall>t. get_block web3 t = Inr blk" and "baseFeePerGas blk = Some base_fee"
    and "\<forall>t. max_priority_fee web3 t = Inr priority"
    and "\<forall>t. chain_id web3 t = Inr cid"
    and "\<forall>i. int_validator py (PInt i) = Some i"
  shows "\<exists>p'. complete_parameters web3 a p t = (Inr p', t @ chain_events a p)
     \<and> map_of p' = (\<lambda>k. if contains p k then map_of p k
                          else if k = ''nonce'' then Some (PInt n)
                          else if k = ''maxFeePerGas'' then Some (PInt (2 * base_fee + priority))
                          else if k = ''maxPriorityFeePerGas'' then Some (PInt priority)
                          else if k = ''chainId'' then Some (PInt cid)
                          else None)
     \<and> build_transaction_data py web3 a p t =
          (case TransactionData_init py p' of
             None \<Rightarrow> Inl TransactionException
           | Some td \<Rightarrow> Inr (to_dictionary td),
           t @ chain_events a p)
     \<and> (\<forall>td k i. TransactionData_init py p' = Some td \<and> k \<in> set four_fields
            \<and> map_of p' k = Some (PInt i) \<longrightarrow> map_of (to_dictionary td) k = Some (PInt i))"
proof -
  from complete_parameters_value [OF assms(1-5), of a p t]
  obtain p' where P: "complete_parameters web3 a p t = (Inr p', t @ chain_events a p)"
     "map_of p' = (\<lambda>k. if contains p k then map_of p k
                          else if k = ''nonce'' then Some (PInt n)
                          else if k = ''maxFeePerGas'' then Some (PInt (2 * base_fee + priority))
                          else if k = ''maxPriorityFeePerGas'' then Some (PInt priority)
                          else if k = ''chainId'' then Some (PInt cid)
                          else None)"
    by blast
  have B: "build_transaction_data py web3 a p t =
          (case TransactionData_init py p' of
             None \<Rightarrow> Inl TransactionException
           | Some td \<Rightarrow> Inr (to_dictionary td),
           t @ chain_events a p)"
    by (simp add: build_transaction_data_def io_bind_def P(1) io_raise_def io_return_def
        split: option.splits)
  have V: "\<forall>td k i. TransactionData_init py p' = Some td \<and> k \<in> set four_fields
            \<and> map_of p' k = Some (PInt i) \<longrightarrow> map_of (to_dictionary td) k = Some (PInt i)"
    using to_dictionary_int_fields assms(6) by blast
  show ?thesis using P B V by blast
qed

theorem build_fills_missing_fields_witness:
  "build_transaction_data simple_pydantic
      (steady_web3 5 \<lparr>number = 700, baseFeePerGas = Some 10\<rparr> 2 1) ''0xa11ce''
      [(''to'', PStr ''0xb0b''), (''value'', PInt 100), (''maxFeePerGas'', PInt 50)] []
   = (Inr [(''nonce'', PInt 5), (''maxFeePerGas'', PInt 50), (''maxPriorityFeePerGas'', PInt 2),
           (''chainId'', PInt 1), (''value'', PInt 100), (''gas'', PInt 400000),
           (''to'', PStr ''0xb0b'')],
      [GetTransactionCount ''0xa11ce'', GetBlockLatest, MaxPriorityFee, ChainId])"
proof -
  let ?w = "steady_web3 5 \<lparr>number = 700, baseFeePerGas = Some 10\<rparr> 2 1"
  let ?p = "[(''to'', PStr ''0xb0b''), (''value'', PInt 100), (''maxFeePerGas'', PInt 50)]"
  have h: "\<forall>t. get_transaction_count ?w t = Inr 5"
    "\<forall>t. get_block ?w t = Inr \<lparr>number = 700, baseFeePerGas = Some 10\<rparr>"
    "baseFeePerGas \<lparr>number = 700, baseFeePerGas = Some 10\<rparr> = Some 10"
    "\<forall>t. max_priority_fee ?w t = Inr 2"
    "\<forall>t. chain_id ?w t = Inr 1"
    "\<forall>i. int_validator simple_pydantic (PInt i) = Some i"
    by (simp_all add: steady_web3_def simple_pydantic_def)
  from build_fills_missing_fields [OF h, of "''0xa11ce''" ?p "[]"]
  obtain p' where P: "complete_parameters ?w ''0xa11ce'' ?p [] = (Inr p', [] @ chain_events ''0xa11ce'' ?p)"
    "build_transaction_data simple_pydantic ?w ''0xa11ce'' ?p [] =
          (case TransactionData_init simple_pydantic p' of
             None \<Rightarrow> Inl TransactionException
           | Some td \<Rightarrow> Inr (to_dictionary td),
           [] @ chain_events ''0xa11ce'' ?p)"
    by blast
  have "complete_parameters ?w ''0xa11ce'' ?p [] =
      (Inr [(''to'', PStr ''0xb0b''), (''value'', PInt 100), (''maxFeePerGas'', PInt 50),
            (''nonce'', PInt 5), (''maxPriorityFeePerGas'', PInt 2), (''chainId'', PInt 1)],
       [GetTransactionCount ''0xa11ce'', GetBlockLatest, MaxPriorityFee, ChainId])"
    by (simp add: complete_parameters_def fill_nonce_def fill_gas_fees_def fill_chain_id_def
        get_gas_fees_def io_bind_def io_return_def ext_def contains_def steady_web3_def)
  with P(1) have p': "p' = [(''to'', PStr ''0xb0b''), (''value'', PInt 100), (''maxFeePerGas'', PInt 50),
            (''nonce'', PInt 5), (''maxPriorityFeePerGas'', PInt 2), (''chainId'', PInt 1)]"
    by simp
  show ?thesis
    unfolding P(2) p'
    by (simp add: TransactionData_init_def required_field_def optional_field_def
        simple_pydantic_def to_dictionary_def item_def chain_events_def contains_def)
qed

theorem gas_fees_formula_witness:
  "get_gas_fees (steady_web3 5 \<lparr>number = 700, baseFeePerGas = Some 10\<rparr> 2 1) []
     = (Inr \<lparr>GasFees.maxPriorityFeePerGas = 2, GasFees.maxFeePerGas = 22\<rparr>,
        [GetBlockLatest, MaxPriorityFee])
   \<and> fst (fill_gas_fees (steady_web3 5 \<lparr>number = 700, baseFeePerGas = Some 10\<rparr> 2 1)
        [(''maxFeePerGas'', PInt 50), (''maxPriorityFeePerGas'', PInt 3)] [])
     = Inr [(''maxFeePerGas'', PInt 50), (''maxPriorityFeePerGas'', PInt 3)]"
  using gas_fees_formula [of "steady_web3 5 \<lparr>number = 700, baseFeePerGas = Some 10\<rparr> 2 1" "[]"
      "\<lparr>number = 700, baseFeePerGas = Some 10\<rparr>" 10 2
      "[(''maxFeePerGas'', PInt 50), (''maxPriorityFeePerGas'', PInt 3)]"]
  by (simp add: steady_web3_def fill_gas_fees_def contains_def io_return_def)

section \<open>Properties of the connection setup\<close>

lemma count_rounds_NewWeb3:
  "count_list (concat (replicate k (retry_round url))) (NewWeb3 url) = k"
  by (induction k) (simp_all add: retry_round_def)

lemma count_rounds_Sleep:
  "count_list (concat (replicate k (retry_round url))) (Sleep 1) = k"
  by (induction k) (simp_all add: retry_round_def)

lemma connect_loop_stable:
  assumes stable: "\<forall>tt. is_connected web3 tt = up (count_list tt (NewWeb3 url))"
  shows "n = nat (R - retried) \<Longrightarrow> retried \<le> R \<Longrightarrow> count_list t (NewWeb3 url) = c \<Longrightarrow>
    \<exists>k\<le>n. connect_loop web3 url R retried t
            = Some (t @ concat (replicate k (retry_round url)) @ [IsConnected])
       \<and> (\<forall>j<k. \<not> up (c + j)) \<and> (k < n \<longrightarrow> up (c + k))"
proof (induction n arbitrary: retried t c)
  case 0
  then have "retried = R" by simp
  then have "connect_loop web3 url R retried t = Some (t @ [IsConnected])"
    by (subst connect_loop.simps) simp
  then show ?case by simp
next
  case (Suc n)
  have probe: "is_connected web3 (t @ [IsConnected]) = up c"
    using stable Suc.prems(3) by simp
  from Suc.prems have neq: "retried \<noteq> R" by auto
  show ?case
  proof (cases "up c")
    case True
    then have "connect_loop web3 url R retried t = Some (t @ [IsConnected])"
      using probe by (subst connect_loop.simps) simp
    then show ?thesis using True by (intro exI [of _ 0]) simp
  next
    case False
    let ?t1 = "t @ retry_round url"
    have n: "n = nat (R - (retried + 1))" and le: "retried + 1 \<le> R"
      using Suc.prems by auto
    have cnt: "count_list ?t1 (NewWeb3 url) = Suc c"
      using Suc.prems(3) by (simp add: retry_round_def)
    from Suc.IH [OF n le cnt]
    obtain k where IH: "k \<le> n"
      "connect_loop web3 url R (retried + 1) ?t1
         = Some (?t1 @ concat (replicate k (retry_round url)) @ [IsConnected])"
      "\<forall>j<k. \<not> up (Suc c + j)" "k < n \<longrightarrow> up (Suc c + k)"
      by blast
    have step: "connect_loop web3 url R retried t = connect_loop web3 url R (retried + 1) ?t1"
      using False probe neq by (subst connect_loop.simps) (simp add: retry_round_def)
    have run: "connect_loop web3 url R retried t
         = Some (t @ concat (replicate (Suc k) (retry_round url)) @ [IsConnected])"
      unfolding step IH(2) by simp
    have fails: "\<forall>j<Suc k. \<not> up (c + j)"
    proof (intro allI impI)
      fix j assume "j < Suc k"
      then show "\<not> up (c + j)"
        using False IH(3) by (cases j) simp_all
    qed
    have last: "Suc k < Suc n \<longrightarrow> up (c + Suc k)"
      using IH(4) by simp
    show ?thesis
      using IH(1) run fails last by (intro exI [of _ "Suc k"]) simp
  qed
qed

text \<open>
  C7. A connection attempt is a client made for the endpoint
  (\<^verbatim>\<open>Web3(Web3.HTTPProvider(...))\<close>); whether the \<open>n\<close>-th client made reports
  connected is \<open>up n\<close>, the same each time that client is asked. For \<open>retries \<ge> 0\<close>
  the setup returns, and it raises \<^verbatim>\<open>Web3ConnectionException\<close> exactly when none of
  its \<open>retries + 1\<close> clients reports connected. In that case the trace is the first
  client followed by \<open>retries\<close> rounds (the failed test, the printed line, a sleep of
  1, a new client), the last test of the loop and the test after the loop:
  \<open>retries + 1\<close> clients with one sleep of 1 between consecutive ones. With
  \<open>retries = 5\<close>: 6 clients, 5 sleeps, and 7 calls of \<^verbatim>\<open>is_connected()\<close>.
\<close>

theorem connection_setup_attempts:
  assumes R: "0 \<le> R"
    and stable: "\<forall>tt. is_connected web3 tt = up (count_list tt (NewWeb3 url))"
  shows "\<exists>res tr. initialize_web3 web3 url R t = Some (res, t @ tr)
     \<and> (res = Inl Web3ConnectionException
          \<longleftrightarrow> (\<forall>j\<le>nat R. \<not> up (count_list t (NewWeb3 url) + 1 + j)))
     \<and> ((\<forall>j\<le>nat R. \<not> up (count_list t (NewWeb3 url) + 1 + j)) \<longrightarrow>
          tr = NewWeb3 url # concat (replicate (nat R) (retry_round url)) @ [IsConnected, IsConnected]
          \<and> count_list tr (NewWeb3 url) = nat R + 1
          \<and> count_list tr (Sleep 1) = nat R)"
proof -
  let ?c = "count_list t (NewWeb3 url) + 1"
  let ?t0 = "t @ [NewWeb3 url]"
  have c0: "count_list ?t0 (NewWeb3 url) = ?c" by simp
  from connect_loop_stable [OF stable, of "nat R" R 0 ?t0 ?c] R c0
  obtain k where K: "k \<le> nat R"
    "connect_loop web3 url R 0 ?t0 = Some (?t0 @ concat (replicate k (retry_round url)) @ [IsConnected])"
    "\<forall>j<k. \<not> up (?c + j)" "k < nat R \<longrightarrow> up (?c + k)"
    by auto
  let ?t1 = "?t0 @ concat (replicate k (retry_round url)) @ [IsConnected]"
  let ?tr = "NewWeb3 url # concat (replicate k (retry_round url)) @ [IsConnected, IsConnected]"
  have probe: "is_connected web3 (?t1 @ [IsConnected]) = up (?c + k)"
    using stable by (simp add: count_rounds_NewWeb3)
  define res :: "exn + unit" where
    "res = (if \<not> up (?c + k) then Inl Web3ConnectionException else Inr ())"
  have run: "initialize_web3 web3 url R t = Some (res, t @ ?tr)"
    using probe by (simp add: initialize_web3_def K(2) res_def)
  have iff: "res = Inl Web3ConnectionException \<longleftrightarrow> (\<forall>j\<le>nat R. \<not> up (?c + j))"
  proof
    assume "res = Inl Web3ConnectionException"
    then have nk: "\<not> up (?c + k)" by (simp add: res_def split: if_splits)
    with K(4) K(1) have "k = nat R" by auto
    with nk K(3) show "\<forall>j\<le>nat R. \<not> up (?c + j)"
      by (metis le_neq_implies_less)
  next
    assume "\<forall>j\<le>nat R. \<not> up (?c + j)"
    with K(1) have "\<not> up (?c + k)" by blast
    then show "res = Inl Web3ConnectionException" by (simp add: res_def)
  qed
  have all: "(\<forall>j\<le>nat R. \<not> up (?c + j)) \<longrightarrow>
          ?tr = NewWeb3 url # concat (replicate (nat R) (retry_round url)) @ [IsConnected, IsConnected]
          \<and> count_list ?tr (NewWeb3 url) = nat R + 1
          \<and> count_list ?tr (Sleep 1) = nat R"
  proof
    assume a: "\<forall>j\<le>nat R. \<not> up (?c + j)"
    with K(1) have "\<not> up (?c + k)" by blast
    with K(4) K(1) have k: "k = nat R" by auto
    show "?tr = NewWeb3 url # concat (replicate (nat R) (retry_round url)) @ [IsConnected, IsConnected]
          \<and> count_list ?tr (NewWeb3 url) = nat R + 1
          \<and> count_list ?tr (Sleep 1) = nat R"
      by (simp add: k count_rounds_NewWeb3 count_rounds_Sleep)
  qed
  show ?thesis using run iff all by blast
qed

theorem connection_setup_attempts_witness:
  "\<exists>tr. initialize_web3 unreachable_web3 ''http://node'' 5 [] =
       Some (Inl Web3ConnectionException, tr)
     \<and> count_list tr (NewWeb3 ''http://node'') = 6
     \<and> count_list tr (Sleep 1) = 5
     \<and> count_list tr IsConnected = 7"
proof -
  have st: "\<forall>tt. is_connected unreachable_web3 tt
      = (\<lambda>n. False) (count_list tt (NewWeb3 ''http://node''))"
    by (simp add: unreachable_web3_def)
  have R: "(0::int) \<le> 5" by simp
  from connection_setup_attempts [OF R st, where t = "[]"]
  obtain res tr where T:
    "initialize_web3 unreachable_web3 ''http://node'' 5 [] = Some (res, tr)"
    "res = Inl Web3ConnectionException"
    "tr = NewWeb3 ''http://node'' # concat (replicate (nat 5) (retry_round ''http://node''))
           @ [IsConnected, IsConnected]"
    "count_list tr (NewWeb3 ''http://node'') = nat 5 + 1"
    "count_list tr (Sleep 1) = nat 5"
    by fastforce
  have "count_list tr IsConnected = 7"
    unfolding T(3) by (simp add: retry_round_def numeral_eq_Suc)
  then show ?thesis using T by simp
qed



section \<open>Properties of the Curve index lookup\<close>

lemma map_fst_setitem:
  "map fst (setitem d k v) = (if k \<in> fst ` set d then map fst d else map fst d @ [k])"
proof (induction d)
  case Nil
  then show ?case by simp
next
  case (Cons x d)
  obtain k' v' where x: "x = (k', v')" by (cases x)
  show ?case
  proof (cases "k' = k")
    case True
    then show ?thesis by (simp add: x)
  next
    case False
    then show ?thesis using Cons.IH by (simp add: x)
  qed
qed

lemma setitem_keys: "fst ` set (setitem d k v) = insert k (fst ` set d)"
proof -
  have "set (map fst (setitem d k v)) = insert k (fst ` set d)"
    unfolding map_fst_setitem by auto
  then show ?thesis by simp
qed

lemma setitem_distinct: "distinct (map fst d) \<Longrightarrow> distinct (map fst (setitem d k v))"
  unfolding map_fst_setitem by auto

lemma foldl_setitem_keys:
  "fst ` set (foldl (\<lambda>d (k, v). setitem d k v) d items) = fst ` set d \<union> fst ` set items"
proof (induction items arbitrary: d)
  case Nil
  then show ?case by simp
next
  case (Cons x items)
  obtain k v where x: "x = (k, v)" by (cases x)
  show ?case using Cons.IH [of "setitem d k v"] by (simp add: x setitem_keys)
qed

lemma foldl_setitem_distinct:
  "distinct (map fst d) \<Longrightarrow> distinct (map fst (foldl (\<lambda>d (k, v). setitem d k v) d items))"
proof (induction items arbitrary: d)
  case Nil
  then show ?case by simp
next
  case (Cons x items)
  obtain k v where x: "x = (k, v)" by (cases x)
  show ?case using Cons.IH [of "setitem d k v"] Cons.prems by (simp add: x setitem_distinct)
qed

lemma foldl_setitem_values:
  "map_of (foldl (\<lambda>d (k, v). setitem d k v) d items) a = Some i \<Longrightarrow>
     map_of d a = Some i \<or> (a, i) \<in> set items"
proof (induction items arbitrary: d)
  case Nil
  then show ?case by simp
next
  case (Cons x items)
  obtain k v where x: "x = (k, v)" by (cases x)
  from Cons.prems have "map_of (foldl (\<lambda>d (k, v). setitem d k v) (setitem d k v) items) a = Some i"
    by (simp add: x)
  from Cons.IH [OF this] show ?case
    by (auto simp: x map_of_setitem split: if_splits)
qed


lemma lookup_coin_value:
  assumes "coins contract (t @ [CallCoins i]) = Inr a"
  shows "lookup_coin contract i cs t =
     (Inr (if a \<in> set cs then [(a, i)] else []), t @ [CallCoins i])"
  using assms
  by (simp add: lookup_coin_def try_except_def io_bind_def ext_def io_return_def)

lemma run_all_lookups:
  assumes co: "\<forall>tt. \<forall>i\<in>S. coins contract (tt @ [CallCoins i]) = Inr (pool i)"
  shows "set slots \<subseteq> S \<Longrightarrow>
     run_all (map (\<lambda>i. lookup_coin contract i cs) slots) t =
       (map (\<lambda>i. Inr (slot_items pool cs i)) slots, t @ map CallCoins slots)"
proof (induction slots arbitrary: t)
  case Nil
  then show ?case by simp
next
  case (Cons i slots)
  from Cons.prems have i: "i \<in> S" and rest: "set slots \<subseteq> S" by simp_all
  from co i have "coins contract (t @ [CallCoins i]) = Inr (pool i)" by blast
  from lookup_coin_value [OF this, of cs]
  have l: "lookup_coin contract i cs t = (Inr (slot_items pool cs i), t @ [CallCoins i])"
    by (simp add: slot_items_def)
  show ?case using Cons.IH [OF rest, of "t @ [CallCoins i]"] by (simp add: l)
qed

lemma results_all_Inr:
  "results_or_first_exception (map (\<lambda>i. Inr (f i)) slots) = Inr (map f slots)"
  by (induction slots) simp_all

lemma get_coin_indexes_value:
  assumes n: "N_COINS contract (t @ [CallNCoins]) = Inr K"
    and co: "\<forall>tt. \<forall>i\<in>set (py_range K). coins contract (tt @ [CallCoins i]) = Inr (pool i)"
  shows "get_coin_indexes contract cs t =
     (Inr (merged pool cs K), t @ CallNCoins # map CallCoins (py_range K))"
proof -
  have g: "asyncio_gather (map (\<lambda>i. lookup_coin contract i cs) (py_range K)) (t @ [CallNCoins]) =
      (Inr (map (slot_items pool cs) (py_range K)), (t @ [CallNCoins]) @ map CallCoins (py_range K))"
    using run_all_lookups [OF co, of "py_range K" cs "t @ [CallNCoins]"]
    by (simp add: asyncio_gather_def results_all_Inr)
  show ?thesis
    using n g
    by (simp add: get_coin_indexes_def io_bind_def try_except_def ext_def io_return_def merged_def)
qed

lemma items_set:
  "set (concat (map (slot_items pool cs) slots)) = {(a, i). i \<in> set slots \<and> pool i = a \<and> a \<in> set cs}"
  by (auto simp: slot_items_def split: if_splits)

lemma merged_keys:
  "fst ` set (merged pool cs K) = set cs \<inter> pool ` set (py_range K)"
  unfolding merged_def foldl_setitem_keys items_set by force

lemma merged_distinct: "distinct (map fst (merged pool cs K))"
  unfolding merged_def by (rule foldl_setitem_distinct) simp

lemma merged_values:
  assumes "map_of (merged pool cs K) a = Some i"
  shows "a \<in> set cs \<and> i \<in> set (py_range K) \<and> pool i = a"
proof -
  from foldl_setitem_values [OF assms [unfolded merged_def]]
  have "(a, i) \<in> set (concat (map (slot_items pool cs) (py_range K)))" by simp
  then show ?thesis unfolding items_set by simp
qed

lemma merged_length:
  "length (merged pool cs K) = card (set cs \<inter> pool ` set (py_range K))"
proof -
  have "length (merged pool cs K) = length (map fst (merged pool cs K))" by simp
  also have "\<dots> = card (set (map fst (merged pool cs K)))"
    using merged_distinct by (simp only: distinct_card)
  also have "\<dots> = card (set cs \<inter> pool ` set (py_range K))"
    using merged_keys [of pool cs K] by simp
  finally show ?thesis .
qed

lemma merged_length_two:
  assumes "sell \<noteq> buy"
  shows "length (merged pool [sell, buy] K) = 2
     \<longleftrightarrow> sell \<in> pool ` set (py_range K) \<and> buy \<in> pool ` set (py_range K)"
proof -
  let ?P = "pool ` set (py_range K)"
  have sub: "set [sell, buy] \<inter> ?P \<subseteq> {sell, buy}" by auto
  show ?thesis
  proof
    assume "length (merged pool [sell, buy] K) = 2"
    then have c: "card (set [sell, buy] \<inter> ?P) = 2" by (simp add: merged_length)
    have "card {sell, buy} = 2" using assms by simp
    with c sub have "set [sell, buy] \<inter> ?P = {sell, buy}"
      by (intro card_subset_eq) simp_all
    then show "sell \<in> ?P \<and> buy \<in> ?P" by auto
  next
    assume "sell \<in> ?P \<and> buy \<in> ?P"
    then have "set [sell, buy] \<inter> ?P = {sell, buy}" by auto
    then show "length (merged pool [sell, buy] K) = 2"
      using assms by (simp add: merged_length)
  qed
qed

lemma merged_found:
  assumes "a \<in> set cs" "a \<in> pool ` set (py_range K)"
  shows "\<exists>i. map_of (merged pool cs K) a = Some i"
proof -
  from assms have "a \<in> fst ` set (merged pool cs K)" by (simp add: merged_keys)
  then show ?thesis by (metis domIff dom_map_of_conv_image_fst not_Some_eq)
qed

text \<open>
  C6. On a pool of \<open>K\<close> slots holding the coins \<open>pool 0, ..., pool (K - 1)\<close>, for two
  different requested coins: the index lookup asks \<^verbatim>\<open>N_COINS\<close> and each slot once and
  returns a dict keyed by coin address in which every entry is a requested coin with
  a slot that holds it; when both coins are in the pool the dict has both, and its
  length is 2; when one of them is not, \<^verbatim>\<open>_prepare_swap\<close> and with it \<^verbatim>\<open>swap\<close>
  raise \<^verbatim>\<open>SwapException\<close> with nothing called after the slot reads: no \<^verbatim>\<open>get_dy\<close>, no
  \<^verbatim>\<open>exchange\<close>.
\<close>

theorem curve_index_resolution:
  assumes "N_COINS contract (t @ [CallNCoins]) = Inr K"
    and "\<forall>tt. \<forall>i\<in>set (py_range K). coins contract (tt @ [CallCoins i]) = Inr (pool i)"
    and "sell \<noteq> buy"
  shows "\<exists>m. get_coin_indexes contract [sell, buy] t =
         (Inr m, t @ CallNCoins # map CallCoins (py_range K))
     \<and> (\<forall>a i. map_of m a = Some i \<longrightarrow>
            (a = sell \<or> a = buy) \<and> i \<in> set (py_range K) \<and> pool i = a)
     \<and> (sell \<in> pool ` set (py_range K) \<and> buy \<in> pool ` set (py_range K) \<longrightarrow>
            length m = 2 \<and> (\<exists>i j. map_of m sell = Some i \<and> map_of m buy = Some j))
     \<and> (\<not> (sell \<in> pool ` set (py_range K) \<and> buy \<in> pool ` set (py_range K)) \<longrightarrow>
            prepare_swap contract sell buy amount_in min_dy_given t =
              (Inl SwapException, t @ CallNCoins # map CallCoins (py_range K))
          \<and> Curve_swap py web3 account_address contract sell buy amount_in min_dy_given t =
              (Inl SwapException, t @ CallNCoins # map CallCoins (py_range K)))"
proof -
  let ?m = "merged pool [sell, buy] K"
  let ?t1 = "t @ CallNCoins # map CallCoins (py_range K)"
  have G: "get_coin_indexes contract [sell, buy] t = (Inr ?m, ?t1)"
    by (rule get_coin_indexes_value [OF assms(1) assms(2)])
  have V: "\<forall>a i. map_of ?m a = Some i \<longrightarrow>
            (a = sell \<or> a = buy) \<and> i \<in> set (py_range K) \<and> pool i = a"
    using merged_values [of pool "[sell, buy]" K] by auto
  have F: "sell \<in> pool ` set (py_range K) \<and> buy \<in> pool ` set (py_range K) \<longrightarrow>
            length ?m = 2 \<and> (\<exists>i j. map_of ?m sell = Some i \<and> map_of ?m buy = Some j)"
    using merged_length_two [OF assms(3), of pool K]
      merged_found [of sell "[sell, buy]" pool K] merged_found [of buy "[sell, buy]" pool K]
    by auto
  have N: "\<not> (sell \<in> pool ` set (py_range K) \<and> buy \<in> pool ` set (py_range K)) \<longrightarrow>
            prepare_swap contract sell buy amount_in min_dy_given t = (Inl SwapException, ?t1)
          \<and> Curve_swap py web3 account_address contract sell buy amount_in min_dy_given t =
              (Inl SwapException, ?t1)"
  proof
    assume "\<not> (sell \<in> pool ` set (py_range K) \<and> buy \<in> pool ` set (py_range K))"
    then have len: "length ?m \<noteq> 2"
      using merged_length_two [OF assms(3), of pool K] by simp
    have P: "prepare_swap contract sell buy amount_in min_dy_given t = (Inl SwapException, ?t1)"
      using G len by (simp add: prepare_swap_def io_bind_def io_raise_def)
    then have "Curve_swap py web3 account_address contract sell buy amount_in min_dy_given t =
        (Inl SwapException, ?t1)"
      by (simp add: Curve_swap_def io_bind_def)
    with P show "prepare_swap contract sell buy amount_in min_dy_given t = (Inl SwapException, ?t1)
          \<and> Curve_swap py web3 account_address contract sell buy amount_in min_dy_given t =
              (Inl SwapException, ?t1)"
      by simp
  qed
  show ?thesis using G V F N by blast
qed


lemma py_range_3: "py_range 3 = [0, 1, 2]"
  by (simp add: py_range_def numeral_eq_Suc upt_rec)

theorem curve_index_resolution_witness:
  "Curve_swap simple_pydantic (steady_web3 5 \<lparr>number = 700, baseFeePerGas = Some 10\<rparr> 2 1)
      ''0xa11ce'' (listed_pool [''dai'', ''usdc'', ''usdt''] 99) ''usdc'' ''weth'' 10 (Some 0) []
     = (Inl SwapException, [CallNCoins, CallCoins 0, CallCoins 1, CallCoins 2])
   \<and> get_coin_indexes (listed_pool [''dai'', ''usdc'', ''usdt''] 99) [''usdc'', ''dai''] []
     = (Inr [(''dai'', 0), (''usdc'', 1)], [CallNCoins, CallCoins 0, CallCoins 1, CallCoins 2])"
proof -
  let ?c = "listed_pool [''dai'', ''usdc'', ''usdt''] 99"
  let ?pool = "\<lambda>i. [''dai'', ''usdc'', ''usdt''] ! nat i"
  have n: "N_COINS ?c ([] @ [CallNCoins]) = Inr 3"
    by (simp add: listed_pool_def)
  have co: "\<forall>tt. \<forall>i\<in>set (py_range 3). coins ?c (tt @ [CallCoins i]) = Inr (?pool i)"
    by (simp add: listed_pool_def py_range_3)
  have ne: "''usdc'' \<noteq> ''weth''" by simp
  have nf: "\<not> (''usdc'' \<in> ?pool ` set (py_range 3) \<and> ''weth'' \<in> ?pool ` set (py_range 3))"
    by (simp add: py_range_3)
  from curve_index_resolution [OF n co ne, of 10 "Some 0" simple_pydantic
      "steady_web3 5 \<lparr>number = 700, baseFeePerGas = Some 10\<rparr> 2 1" "''0xa11ce''"] nf
  have sw: "Curve_swap simple_pydantic (steady_web3 5 \<lparr>number = 700, baseFeePerGas = Some 10\<rparr> 2 1)
      ''0xa11ce'' ?c ''usdc'' ''weth'' 10 (Some 0) []
     = (Inl SwapException, [] @ CallNCoins # map CallCoins (py_range 3))"
    by blast
  have found: "get_coin_indexes ?c [''usdc'', ''dai''] []
     = (Inr [(''dai'', 0), (''usdc'', 1)], [CallNCoins, CallCoins 0, CallCoins 1, CallCoins 2])"
    using get_coin_indexes_value [OF n co, of "[''usdc'', ''dai'']"]
    by (simp add: merged_def slot_items_def py_range_3)
  show ?thesis using sw found by (simp add: py_range_3)
qed

end
